theory Spec2Isabelle
  imports Complex_Main "HOL-Library.AList" "HOL-Library.Multiset"
begin

section \<open>The region generator of regiongen.py\<close>

text \<open>
  A shallow embedding of \<^verbatim>\<open>RegionGenerator\<close> (src/regiongen.py). The object
  \<^verbatim>\<open>self\<close> is the record \<open>gen\<close>; every method takes it and returns the updated
  record. Python floats are read as real numbers. A tile dictionary that the source
  holds by reference (in a list of fertile tiles, in \<^verbatim>\<open>tiles_by_realm\<close>, as a
  neighbour) is its index in \<^verbatim>\<open>self.tiles\<close>, and reading a field of it reads
  the current grid. Dictionaries keep insertion order, as Python's do: they are
  association lists written with \<open>AList.update\<close>.
\<close>

subsection \<open>Exceptions\<close>

datatype error = ZeroDivisionError | ValueError | IndexError | KeyError

definition bind_err :: "error + 'a \<Rightarrow> ('a \<Rightarrow> error + 'b) \<Rightarrow> error + 'b" where
  "bind_err m f = (case m of Inl e \<Rightarrow> Inl e | Inr v \<Rightarrow> f v)"

subsection \<open>The random stream\<close>

text \<open>
  \<^verbatim>\<open>random.Random\<close> is the standard library's Mersenne Twister. Here the
  stream is the list of the raw draws still to come (zeros once the list is used up):
  \<^verbatim>\<open>random()\<close> is a draw of 53 bits over \<open>2^53\<close>, as in CPython, and
  \<^verbatim>\<open>_randbelow(n)\<close> is a draw reduced below \<open>n\<close>. Every result the library
  can return is the result of some list, so a statement proved for all lists holds for
  the library's stream. \<^verbatim>\<open>shuffle\<close>, \<^verbatim>\<open>choice\<close>, \<^verbatim>\<open>randint\<close>
  and \<^verbatim>\<open>uniform\<close> are CPython's definitions over these two.
\<close>

type_synonym rng = "nat list"

definition next_raw :: "rng \<Rightarrow> nat \<times> rng" where
  "next_raw r = (case r of [] \<Rightarrow> (0, []) | d # ds \<Rightarrow> (d, ds))"

definition rng_random :: "rng \<Rightarrow> real \<times> rng" where
  "rng_random r = (case next_raw r of (d, r') \<Rightarrow> (real (d mod 2 ^ 53) / 2 ^ 53, r'))"

definition randbelow :: "nat \<Rightarrow> rng \<Rightarrow> nat \<times> rng" where
  "randbelow n r = (case next_raw r of (d, r') \<Rightarrow> (d mod n, r'))"

definition randint :: "int \<Rightarrow> int \<Rightarrow> rng \<Rightarrow> error + (int \<times> rng)" where
  "randint a b r =
     (if b < a then Inl ValueError
      else case randbelow (nat (b - a + 1)) r of (k, r') \<Rightarrow> Inr (a + int k, r'))"

definition uniform :: "real \<Rightarrow> real \<Rightarrow> rng \<Rightarrow> real \<times> rng" where
  "uniform a b r = (case rng_random r of (u, r') \<Rightarrow> (a + (b - a) * u, r'))"

text \<open>
  \<^verbatim>\<open>for i in reversed(range(1, len(x))): j = randbelow(i + 1); x[i], x[j] = x[j], x[i]\<close>
\<close>

fun shuffle_from :: "nat \<Rightarrow> 'a list \<Rightarrow> rng \<Rightarrow> 'a list \<times> rng" where
  "shuffle_from 0 xs r = (xs, r)"
| "shuffle_from (Suc i) xs r =
     (case randbelow (Suc (Suc i)) r of
        (j, r') \<Rightarrow> shuffle_from i (xs[Suc i := xs ! j, j := xs ! Suc i]) r')"

definition shuffle :: "'a list \<Rightarrow> rng \<Rightarrow> 'a list \<times> rng" where
  "shuffle xs r = shuffle_from (length xs - 1) xs r"

definition choice :: "'a list \<Rightarrow> rng \<Rightarrow> error + ('a \<times> rng)" where
  "choice xs r =
     (if xs = [] then Inl IndexError
      else case randbelow (length xs) r of (k, r') \<Rightarrow> Inr (xs ! k, r'))"

subsection \<open>Formatting numbers\<close>

definition digit_char :: "nat \<Rightarrow> char" where
  "digit_char d = (if d < 10 then char_of (48 + d) else char_of (87 + d))"

function str_base :: "nat \<Rightarrow> nat \<Rightarrow> string" where
  "str_base b n =
     (if b < 2 \<or> n < b then [digit_char n]
      else str_base b (n div b) @ [digit_char (n mod b)])"
  by pat_completeness auto
termination
  by (relation "measure (\<lambda>(b, n). n)") auto

definition str_nat :: "nat \<Rightarrow> string" where
  "str_nat n = str_base 10 n"

text \<open>The keys \<^verbatim>\<open>f"realm_{n}"\<close> and \<^verbatim>\<open>f"settlement_{n}"\<close>.\<close>

definition realm_key :: "nat \<Rightarrow> string" where
  "realm_key n = ''realm_'' @ str_nat n"

definition settlement_key :: "nat \<Rightarrow> string" where
  "settlement_key n = ''settlement_'' @ str_nat n"

definition str_int :: "int \<Rightarrow> string" where
  "str_int i = (if i < 0 then CHR ''-'' # str_nat (nat (- i)) else str_nat (nat i))"

text \<open>The format \<^verbatim>\<open>{r:02x}\<close>: lower-case hexadecimal, padded to two digits.\<close>

definition hex02 :: "int \<Rightarrow> string" where
  "hex02 r = (if 0 \<le> r \<and> r < 16 then CHR ''0'' # str_base 16 (nat r)
              else if r < 0 then CHR ''-'' # str_base 16 (nat (- r))
              else str_base 16 (nat r))"

subsection \<open>The data model\<close>

datatype biome = Ocean | Mountain | Highland | Grassland | Temperate_forest | Desert | Wetlands

record tile =
  tile_x :: nat
  tile_y :: nat
  elevation :: real
  moisture :: real
  biome :: biome
  water :: bool
  river :: bool
  realm_id :: "string option"
  settlement_id :: "string option"

record realm =
  realm_ident :: string
  realm_name :: string
  color :: string
  capital_settlement_id :: "string option"
  founded_year :: int
  dissolved_year :: "int option"
  culture :: string
  realm_notes :: "string list"
  strength :: "real option"

datatype settlement_type = City | Town | Fort

record settlement =
  s_id :: string
  s_name :: string
  s_type :: settlement_type
  s_tile :: "nat \<times> nat"
  s_realm_id :: string
  s_founded_year :: int
  population :: int
  s_tags :: "string list"
  history :: "string list"

datatype event_type = EMPIRE_PEAK | PLAGUE | CIVIL_WAR | SUCCESSION

record event =
  e_id :: string
  e_year :: int
  e_type :: event_type
  e_realm_ids :: "string list"
  e_settlement_id :: "string option"
  summary :: string

record road =
  road_from :: string
  road_to :: string
  road_tiles :: "(int \<times> int) list"
  road_type :: string

datatype ruin_cause = Cause_CIVIL_WAR | Cause_RAID | Cause_PLAGUE | Cause_ARCANE_DISASTER

record ruin =
  ruin_id :: string
  ruin_name :: string
  ruin_tile :: "nat \<times> nat"
  origin_settlement_id :: "string option"
  destroyed_year :: int
  cause :: ruin_cause
  ruin_tags :: "string list"
  ruin_notes :: "string list"

text \<open>
  The fields of \<^verbatim>\<open>self\<close>. \<open>settlement_namer\<close> is the collaborator
  \<^verbatim>\<open>SettlementNameGenerator.generate_name(kind, rng)\<close>, whose module is not part
  of the sources at hand: it is a field of the generator, as in the source, and by its
  contract it reads nothing but the kind and the stream it is handed.
\<close>

record gen =
  width :: nat
  height :: nat
  years :: int
  base_sea_level :: real
  mode :: string
  seed :: int
  rng :: rng
  settlement_namer :: "string \<Rightarrow> rng \<Rightarrow> string \<times> rng"
  tiles :: "tile list"
  realms :: "(string \<times> realm) list"
  settlements :: "(string \<times> settlement) list"
  events :: "event list"
  roads :: "road list"
  ruins :: "ruin list"

subsection \<open>Helpers\<close>

definition idx :: "gen \<Rightarrow> nat \<Rightarrow> nat \<Rightarrow> nat" where
  "idx g x y = y * width g + x"

text \<open>
  \<^verbatim>\<open>_neighbors\<close>: the tiles at \<open>(x+1, y)\<close>, \<open>(x-1, y)\<close>, \<open>(x, y+1)\<close>,
  \<open>(x, y-1)\<close>, in this order, those inside the grid.
\<close>

definition neighbors :: "gen \<Rightarrow> nat \<Rightarrow> nat \<Rightarrow> nat list" where
  "neighbors g x y =
     (if x + 1 < width g \<and> y < height g then [idx g (x + 1) y] else []) @
     (if 0 < x \<and> x - 1 < width g \<and> y < height g then [idx g (x - 1) y] else []) @
     (if x < width g \<and> y + 1 < height g then [idx g x (y + 1)] else []) @
     (if x < width g \<and> 0 < y \<and> y - 1 < height g then [idx g x (y - 1)] else [])"

definition realm_tile_count :: "gen \<Rightarrow> string \<Rightarrow> nat" where
  "realm_tile_count g rid = length (filter (\<lambda>t. realm_id t = Some rid) (tiles g))"

text \<open>A string is true in a condition when it is not empty; \<^verbatim>\<open>None\<close> is false.\<close>

definition truthy :: "string option \<Rightarrow> bool" where
  "truthy s = (case s of None \<Rightarrow> False | Some v \<Rightarrow> v \<noteq> [])"

definition is_border_tile :: "gen \<Rightarrow> nat \<Rightarrow> bool" where
  "is_border_tile g i =
     (let t = tiles g ! i in
      truthy (realm_id t) \<and>
      list_ex (\<lambda>n. realm_id (tiles g ! n) \<noteq> realm_id t) (neighbors g (tile_x t) (tile_y t)))"

text \<open>
  \<^verbatim>\<open>min(xs, key=...)\<close> returns the first element whose key is least.
\<close>

fun min_by :: "('a \<times> real) \<Rightarrow> ('a \<times> real) list \<Rightarrow> 'a" where
  "min_by (b, kb) [] = b"
| "min_by (b, kb) ((a, ka) # xs) = (if ka < kb then min_by (a, ka) xs else min_by (b, kb) xs)"

definition most_central_tile :: "gen \<Rightarrow> nat list \<Rightarrow> nat" where
  "most_central_tile g ts =
     (if ts = [] then 0
      else
        let avg_x = real (sum_list (map (\<lambda>i. tile_x (tiles g ! i)) ts)) / real (length ts);
            avg_y = real (sum_list (map (\<lambda>i. tile_y (tiles g ! i)) ts)) / real (length ts);
            key = (\<lambda>i. (real (tile_x (tiles g ! i)) - avg_x)\<^sup>2 +
                        (real (tile_y (tiles g ! i)) - avg_y)\<^sup>2)
        in min_by (hd ts, key (hd ts)) (map (\<lambda>i. (i, key i)) (tl ts)))"

text \<open>
  \<^verbatim>\<open>_line_between\<close> loops \<^verbatim>\<open>while True\<close> until it stands on the target.
\<close>

partial_function (option) line_loop ::
  "int \<Rightarrow> int \<Rightarrow> int \<Rightarrow> int \<Rightarrow> int \<Rightarrow> int \<Rightarrow> int \<Rightarrow> int \<Rightarrow> int \<Rightarrow> (int \<times> int) list
   \<Rightarrow> (int \<times> int) list option" where
  "line_loop x1 y1 dx dy sx sy err x y points =
     (if x = x1 \<and> y = y1 then Some (points @ [(x, y)])
      else
        let e2 = 2 * err;
            err' = (if e2 \<ge> dy then err + dy else err);
            x' = (if e2 \<ge> dy then x + sx else x);
            err'' = (if e2 \<le> dx then err' + dx else err');
            y' = (if e2 \<le> dx then y + sy else y)
        in line_loop x1 y1 dx dy sx sy err'' x' y' (points @ [(x, y)]))"

declare line_loop.simps [code]

definition line_between :: "int \<Rightarrow> int \<Rightarrow> int \<Rightarrow> int \<Rightarrow> (int \<times> int) list option" where
  "line_between x0 y0 x1 y1 =
     (let dx = \<bar>x1 - x0\<bar>;
          dy = - \<bar>y1 - y0\<bar>;
          sx = (if x0 < x1 then 1 else - 1);
          sy = (if y0 < y1 then 1 else - 1)
      in line_loop x1 y1 dx dy sx sy (dx + dy) x0 y0 [])"

definition random_color :: "rng \<Rightarrow> error + (string \<times> rng)" where
  "random_color r0 =
     bind_err (randint 80 220 r0) (\<lambda>(r, r1).
     bind_err (randint 80 220 r1) (\<lambda>(g, r2).
     bind_err (randint 80 220 r2) (\<lambda>(b, r3).
       Inr (CHR ''#'' # hex02 r @ hex02 g @ hex02 b, r3))))"

definition pop_estimate :: "settlement_type \<Rightarrow> rng \<Rightarrow> error + (int \<times> rng)" where
  "pop_estimate stype r =
     (case stype of
        City \<Rightarrow> randint 8000 25000 r
      | Town \<Rightarrow> randint 1500 6000 r
      | Fort \<Rightarrow> randint 400 1800 r)"

definition make_realm_name :: "nat \<Rightarrow> rng \<Rightarrow> error + (string \<times> rng)" where
  "make_realm_name index r0 =
     bind_err (choice [''Ashen'', ''Grey'', ''Varn'', ''Eld'', ''Kor'', ''Thorn'', ''Mar'',
                       ''Sel'', ''Drak''] r0) (\<lambda>(p, r1).
     bind_err (choice [''hold'', ''reach'', ''marches'', ''realm'', ''clan'', ''throne'',
                       ''dominion''] r1) (\<lambda>(s, r2).
       Inr (p @ s, r2)))"

definition make_settlement_name :: "gen \<Rightarrow> string \<Rightarrow> string \<times> rng" where
  "make_settlement_name g kind = settlement_namer g kind (rng g)"

text \<open>A \<^verbatim>\<open>for\<close> loop with no \<^verbatim>\<open>break\<close>, stopped by the first exception.\<close>

fun for_each :: "('a \<Rightarrow> 's \<Rightarrow> error + 's) \<Rightarrow> 'a list \<Rightarrow> 's \<Rightarrow> error + 's" where
  "for_each f [] s = Inr s"
| "for_each f (x # xs) s = (case f x s of Inl e \<Rightarrow> Inl e | Inr s' \<Rightarrow> for_each f xs s')"

subsection \<open>Tiles and biomes\<close>

definition choose_biome :: "real \<Rightarrow> real \<Rightarrow> bool \<Rightarrow> biome" where
  "choose_biome e m w =
     (if w then Ocean
      else if e > 0.85 then Mountain
      else if e > 0.7 then Highland
      else if m < 0.2 then Desert
      else if m < 0.45 then Grassland
      else if m < 0.75 then Temperate_forest
      else Wetlands)"

definition clamp01 :: "real \<Rightarrow> real" where
  "clamp01 v = max 0 (min 1 v)"

text \<open>\<^verbatim>\<open>round(v, 3)\<close>, on reals: the nearest multiple of a thousandth.\<close>

definition round3 :: "real \<Rightarrow> real" where
  "round3 v = real_of_int (round (v * 1000)) / 1000"

text \<open>
  The tile appended for \<open>(x, y)\<close>: water and biome come from the elevation \<open>e\<close> and
  the moisture \<open>m\<close> as computed, the stored fields are these rounded.
\<close>

definition new_tile :: "gen \<Rightarrow> nat \<Rightarrow> nat \<Rightarrow> real \<Rightarrow> real \<Rightarrow> tile" where
  "new_tile g x y e m =
     (let w = e < base_sea_level g in
      \<lparr>tile_x = x, tile_y = y, elevation = round3 e, moisture = round3 m,
       biome = choose_biome e m w, water = w, river = False,
       realm_id = None, settlement_id = None\<rparr>)"

text \<open>
  The moisture of row \<open>y\<close>; \<^verbatim>\<open>y / (self.height - 1)\<close> divides by zero on a grid
  of height 1.
\<close>

definition moisture_at :: "gen \<Rightarrow> nat \<Rightarrow> rng \<Rightarrow> error + (real \<times> rng)" where
  "moisture_at g y r =
     (if int (height g) - 1 = 0 then Inl ZeroDivisionError
      else
        let lat_factor = 1 - \<bar>real y / (real (height g) - 1) - 0.5\<bar> * 1.6
        in case rng_random r of (u, r') \<Rightarrow> Inr (clamp01 (lat_factor + (u - 0.5) * 0.4), r'))"

definition continent_tile :: "nat \<Rightarrow> nat \<Rightarrow> gen \<Rightarrow> error + gen" where
  "continent_tile y x g =
     (let cx = (real (width g) - 1) / 2;
          cy = (real (height g) - 1) / 2;
          max_r = real (max (width g) (height g)) / 2.2;
          dx = real x - cx;
          dy = real y - cy;
          dist = sqrt (dx * dx + dy * dy);
          base = clamp01 (1 - dist / max_r)
      in case rng_random (rng g) of (u1, r1) \<Rightarrow>
         case rng_random r1 of (u2, r2) \<Rightarrow>
           let bump1 = (u1 - 0.5) * 0.25;
               bump2 = (u2 - 0.5) * 0.15 * (base + 0.3);
               e = clamp01 (base + bump1 + bump2)
           in bind_err (moisture_at g y r2) (\<lambda>(m, r3).
                Inr (g\<lparr>tiles := tiles g @ [new_tile g x y e m], rng := r3\<rparr>)))"

text \<open>The centres of the archipelago: \<^verbatim>\<open>(randint(0, w-1), randint(0, h-1), uniform(8, 16))\<close>.\<close>

fun centers :: "nat \<Rightarrow> gen \<Rightarrow> rng \<Rightarrow> error + ((int \<times> int \<times> real) list \<times> rng)" where
  "centers 0 g r = Inr ([], r)"
| "centers (Suc n) g r =
     bind_err (randint 0 (int (width g) - 1) r) (\<lambda>(cx, r1).
     bind_err (randint 0 (int (height g) - 1) r1) (\<lambda>(cy, r2).
       case uniform 8 16 r2 of (rad, r3) \<Rightarrow>
         (case centers n g r3 of
            Inl e \<Rightarrow> Inl e
          | Inr (cs, r4) \<Rightarrow> Inr ((cx, cy, rad) # cs, r4))))"

definition blob_elevation :: "(int \<times> int \<times> real) list \<Rightarrow> nat \<Rightarrow> nat \<Rightarrow> real" where
  "blob_elevation cs x y =
     foldl (\<lambda>e (cx, cy, rad).
              let dx = real_of_int (int x - cx);
                  dy = real_of_int (int y - cy);
                  d = sqrt (dx * dx + dy * dy);
                  contrib = max 0 (1 - d / rad)
              in if contrib > e then contrib else e) 0 cs"

definition archipelago_tile :: "(int \<times> int \<times> real) list \<Rightarrow> nat \<Rightarrow> nat \<Rightarrow> gen \<Rightarrow> error + gen" where
  "archipelago_tile cs y x g =
     (case rng_random (rng g) of (u1, r1) \<Rightarrow>
        let e = clamp01 (blob_elevation cs x y + (u1 - 0.5) * 0.15)
        in bind_err (moisture_at g y r1) (\<lambda>(m, r2).
             Inr (g\<lparr>tiles := tiles g @ [new_tile g x y e m], rng := r2\<rparr>)))"

subsection \<open>Connectivity of the continent\<close>

text \<open>
  The flood fill. The stack's top is the head of the list. A neighbour \<open>n\<close> is pushed
  when \<^verbatim>\<open>n_idx not in visited and not self.tiles[n_idx]["water"]\<close>, with
  \<^verbatim>\<open>n_idx\<close> computed from the coordinates stored in \<open>n\<close>.
\<close>

fun push_neighbors :: "gen \<Rightarrow> nat list \<Rightarrow> nat list \<Rightarrow> nat set \<Rightarrow> error + (nat list \<times> nat set)" where
  "push_neighbors g [] stack visited = Inr (stack, visited)"
| "push_neighbors g (j # js) stack visited =
     (let n = tiles g ! j; n_idx = idx g (tile_x n) (tile_y n)
      in if n_idx \<in> visited then push_neighbors g js stack visited
         else if length (tiles g) \<le> n_idx then Inl IndexError
         else if water (tiles g ! n_idx) then push_neighbors g js stack visited
         else push_neighbors g js (n_idx # stack) (insert n_idx visited))"

definition unvisited :: "gen \<Rightarrow> nat set \<Rightarrow> nat set" where
  "unvisited g visited = {i. i < length (tiles g) \<and> i \<notin> visited}"

lemma push_neighbors_measure:
  "push_neighbors g js stack visited = Inr (stack', visited') \<Longrightarrow>
   2 * card (unvisited g visited') + length stack' \<le> 2 * card (unvisited g visited) + length stack"
proof (induction js arbitrary: stack visited)
  case Nil
  then show ?case by simp
next
  case (Cons j js)
  let ?k = "idx g (tile_x (tiles g ! j)) (tile_y (tiles g ! j))"
  show ?case
  proof (cases "?k \<in> visited \<or> water (tiles g ! ?k)")
    case True
    with Cons.prems have "push_neighbors g js stack visited = Inr (stack', visited')"
      by (auto simp: Let_def split: if_splits)
    then show ?thesis by (rule Cons.IH)
  next
    case False
    with Cons.prems have k: "?k < length (tiles g)"
      and rec: "push_neighbors g js (?k # stack) (insert ?k visited) = Inr (stack', visited')"
      by (auto simp: Let_def split: if_splits)
    have fin: "finite (unvisited g visited)"
      by (simp add: unvisited_def)
    have mem: "?k \<in> unvisited g visited"
      using False k by (simp add: unvisited_def)
    have "unvisited g (insert ?k visited) = unvisited g visited - {?k}"
      by (auto simp: unvisited_def)
    then have "card (unvisited g (insert ?k visited)) = card (unvisited g visited) - 1"
      using fin mem by simp
    moreover have "0 < card (unvisited g visited)"
      using fin mem by (auto simp: card_gt_0_iff)
    ultimately show ?thesis
      using Cons.IH [OF rec] by simp
  qed
qed

function flood :: "gen \<Rightarrow> nat list \<Rightarrow> nat set \<Rightarrow> nat list \<Rightarrow> error + (nat set \<times> nat list)" where
  "flood g [] visited cmp = Inr (visited, cmp)"
| "flood g (i # stack) visited cmp =
     (case push_neighbors g (neighbors g (tile_x (tiles g ! i)) (tile_y (tiles g ! i)))
             stack visited of
        Inl e \<Rightarrow> Inl e
      | Inr (stack', visited') \<Rightarrow> flood g stack' visited' (cmp @ [i]))"
  by pat_completeness auto
termination
proof (relation "measure (\<lambda>(g, stack, visited, cmp).
                   2 * card (unvisited g visited) + length stack)")
  show "wf (measure (\<lambda>(g, stack, visited, cmp).
              2 * card (unvisited g visited) + length stack))"
    by simp
next
  fix g i stack visited cmp x2 x y
  assume "push_neighbors g (neighbors g (tile_x (tiles g ! i)) (tile_y (tiles g ! i)))
            stack visited = Inr x2"
    and "(x, y) = x2"
  then have "push_neighbors g (neighbors g (tile_x (tiles g ! i)) (tile_y (tiles g ! i)))
            stack visited = Inr (x, y)"
    by simp
  from push_neighbors_measure [OF this]
  show "((g, x, y, cmp @ [i]), (g, i # stack, visited, cmp))
        \<in> measure (\<lambda>(g, stack, visited, cmp). 2 * card (unvisited g visited) + length stack)"
    by simp
qed

fun find_components :: "gen \<Rightarrow> nat list \<Rightarrow> nat set \<Rightarrow> nat list list \<Rightarrow> error + nat list list" where
  "find_components g [] visited components = Inr components"
| "find_components g (start # rest) visited components =
     (if start \<in> visited then find_components g rest visited components
      else case flood g [start] (insert start visited) [] of
             Inl e \<Rightarrow> Inl e
           | Inr (visited', cmp) \<Rightarrow> find_components g rest visited' (components @ [cmp]))"

text \<open>
  \<^verbatim>\<open>components.sort(key=len, reverse=True)\<close>: CPython reverses the list, sorts
  it stably and reverses the result, so components of equal size keep their order.
\<close>

definition sort_by_len_desc :: "nat list list \<Rightarrow> nat list list" where
  "sort_by_len_desc cs = rev (sort_key length (rev cs))"

definition to_ocean :: "tile \<Rightarrow> tile" where
  "to_ocean t = t\<lparr>water := True, biome := Ocean, river := False,
                  realm_id := None, settlement_id := None\<rparr>"

definition enforce_continent_connectivity :: "gen \<Rightarrow> error + gen" where
  "enforce_continent_connectivity g =
     (let land_indices = filter (\<lambda>i. \<not> water (tiles g ! i)) [0..<length (tiles g)]
      in if land_indices = [] then Inr g
         else bind_err (find_components g land_indices {} []) (\<lambda>components.
           if length components \<le> 1 then Inr g
           else
             let sorted = sort_by_len_desc components
             in Inr (g\<lparr>tiles := foldl (\<lambda>ts i. ts[i := to_ocean (ts ! i)]) (tiles g)
                                    (concat (tl sorted))\<rparr>)))"

subsection \<open>Rivers\<close>

text \<open>
  The keys of \<^verbatim>\<open>min(neighbors, key=...)\<close>, computed in the order of the list:
  a neighbour that is not water draws its jitter from the stream.
\<close>

fun river_keys :: "tile list \<Rightarrow> nat list \<Rightarrow> rng \<Rightarrow> (nat \<times> real) list \<times> rng" where
  "river_keys ts [] r = ([], r)"
| "river_keys ts (j # js) r =
     (if water (ts ! j) then
        (case river_keys ts js r of (ks, r') \<Rightarrow> ((j, elevation (ts ! j)) # ks, r'))
      else
        (case rng_random r of (u, r1) \<Rightarrow>
           (case river_keys ts js r1 of (ks, r') \<Rightarrow>
              ((j, elevation (ts ! j) + 0.05 * u) # ks, r'))))"

text \<open>
  One walk, \<^verbatim>\<open>for _ in range(80)\<close>, from \<open>(x, y)\<close>. Beside the generator it
  returns how the loop was left: by one of its three \<^verbatim>\<open>break\<close>s or by using up
  the range.
\<close>

datatype walk_end = No_neighbors | Next_is_water | Next_is_higher | Steps_used_up

fun river_walk :: "nat \<Rightarrow> nat \<Rightarrow> nat \<Rightarrow> gen \<Rightarrow> gen \<times> walk_end" where
  "river_walk 0 x y g = (g, Steps_used_up)"
| "river_walk (Suc n) x y g =
     (let i = idx g x y;
          tile = (tiles g ! i)\<lparr>river := True\<rparr>;
          g1 = g\<lparr>tiles := (tiles g)[i := tile]\<rparr>;
          ns = neighbors g1 x y
      in if ns = [] then (g1, No_neighbors)
         else
           case river_keys (tiles g1) ns (rng g1) of (ks, r') \<Rightarrow>
             let g2 = g1\<lparr>rng := r'\<rparr>;
                 next_tile = tiles g2 ! min_by (hd ks) (tl ks)
             in if water next_tile then (g2, Next_is_water)
                else if elevation next_tile > elevation tile \<and> \<not> water tile
                  then (g2, Next_is_higher)
                else river_walk n (tile_x next_tile) (tile_y next_tile) g2)"

definition river_sources :: "gen \<Rightarrow> nat list" where
  "river_sources g =
     filter (\<lambda>i. \<not> water (tiles g ! i) \<and> elevation (tiles g ! i) > 0.6) [0..<length (tiles g)]"

definition carve_rivers :: "nat \<Rightarrow> gen \<Rightarrow> gen" where
  "carve_rivers n g =
     (let land_tiles = river_sources g
      in if land_tiles = [] then g
         else case shuffle land_tiles (rng g) of (shuffled, r') \<Rightarrow>
           foldl (\<lambda>g' start.
                    fst (river_walk 80 (tile_x (tiles g' ! start)) (tile_y (tiles g' ! start)) g'))
                 (g\<lparr>rng := r'\<rparr>) (take n shuffled))"

definition generate_base_tiles :: "gen \<Rightarrow> error + gen" where
  "generate_base_tiles g =
     bind_err
       (if mode g = ''continent'' then
          bind_err
            (for_each (\<lambda>y. for_each (continent_tile y) [0..<width g]) [0..<height g] g)
            enforce_continent_connectivity
        else
          let num_masses = max 2 ((width g * height g) div 800)
          in bind_err (centers num_masses g (rng g)) (\<lambda>(cs, r').
               for_each (\<lambda>y. for_each (archipelago_tile cs y) [0..<width g]) [0..<height g]
                 (g\<lparr>rng := r'\<rparr>)))
       (\<lambda>g'. Inr (carve_rivers (max 4 ((width g' * height g') div 700)) g'))"

subsection \<open>Realms\<close>

definition fertile_biome :: "biome \<Rightarrow> bool" where
  "fertile_biome b = (b = Grassland \<or> b = Temperate_forest \<or> b = Wetlands)"

definition fertile_tiles :: "gen \<Rightarrow> nat list" where
  "fertile_tiles g =
     filter (\<lambda>i. \<not> water (tiles g ! i) \<and> fertile_biome (biome (tiles g ! i)))
       [0..<length (tiles g)]"

definition set_realm :: "string option \<Rightarrow> nat \<Rightarrow> tile list \<Rightarrow> tile list" where
  "set_realm v i ts = ts[i := (ts ! i)\<lparr>realm_id := v\<rparr>]"

text \<open>
  A realm \<open>rid\<close> is entered in \<^verbatim>\<open>self.realms\<close> and tile \<open>i\<close> is given to it;
  the name is drawn before the colour.
\<close>

definition found_realm :: "string \<Rightarrow> nat \<Rightarrow> nat \<Rightarrow> gen \<Rightarrow> error + gen" where
  "found_realm rid index i g =
     bind_err (make_realm_name index (rng g)) (\<lambda>(name, r1).
     bind_err (random_color r1) (\<lambda>(col, r2).
       Inr (g\<lparr>realms := AList.update rid
                  \<lparr>realm_ident = rid, realm_name = name, color = col,
                   capital_settlement_id = None, founded_year = 0, dissolved_year = None,
                   culture = ''lowland'', realm_notes = [], strength = None\<rparr> (realms g),
               rng := r2,
               tiles := set_realm (Some rid) i (tiles g)\<rparr>)))"

definition too_close :: "nat \<Rightarrow> nat \<Rightarrow> (nat \<times> nat) list \<Rightarrow> bool" where
  "too_close x y used =
     list_ex (\<lambda>(ux, uy). \<bar>int x - int ux\<bar> + \<bar>int y - int uy\<bar> < 6) used"

text \<open>
  \<^verbatim>\<open>for i in range(target_realms * 2)\<close>, over the list of the values of \<open>i\<close>
  still to come, with the list \<^verbatim>\<open>used\<close> of the seeds accepted so far.
\<close>

fun spawn_loop ::
  "nat \<Rightarrow> nat list \<Rightarrow> nat list \<Rightarrow> (nat \<times> nat) list \<Rightarrow> gen \<Rightarrow> error + gen" where
  "spawn_loop target_realms fertile [] used g = Inr g"
| "spawn_loop target_realms fertile (i # is) used g =
     (if length (realms g) \<ge> target_realms then Inr g
      else if i \<ge> length fertile then Inr g
      else
        let tile = fertile ! i; x = tile_x (tiles g ! tile); y = tile_y (tiles g ! tile)
        in if too_close x y used then spawn_loop target_realms fertile is used g
           else
             case found_realm (realm_key (length (realms g) + 1))
                    (length (realms g)) tile g of
               Inl e \<Rightarrow> Inl e
             | Inr g' \<Rightarrow> spawn_loop target_realms fertile is (used @ [(x, y)]) g')"

definition spawn_initial_realms :: "gen \<Rightarrow> error + gen" where
  "spawn_initial_realms g =
     (case shuffle (fertile_tiles g) (rng g) of (fertile, r') \<Rightarrow>
        let target_realms = max 2 (min 6 ((width g * height g) div 1200))
        in bind_err
             (spawn_loop target_realms fertile [0..<target_realms * 2] [] (g\<lparr>rng := r'\<rparr>))
             (\<lambda>g1. if realms g1 = [] \<and> fertile \<noteq> []
                    then found_realm ''realm_1'' 0 (fertile ! 0) g1
                    else Inr g1))"

subsection \<open>History\<close>

text \<open>
  \<^verbatim>\<open>tiles_by_realm\<close>: the tiles of each realm in grid order, the realms in the
  order of their first tile. \<^verbatim>\<open>if rid:\<close> leaves out \<^verbatim>\<open>None\<close> and the
  empty string.
\<close>

definition tiles_by_realm :: "gen \<Rightarrow> (string \<times> nat list) list" where
  "tiles_by_realm g =
     foldl (\<lambda>m i. case realm_id (tiles g ! i) of
                     None \<Rightarrow> m
                   | Some rid \<Rightarrow>
                       if rid = [] then m
                       else AList.update rid
                              ((case map_of m rid of None \<Rightarrow> [] | Some l \<Rightarrow> l) @ [i]) m)
       [] [0..<length (tiles g)]"

text \<open>
  The neighbours of one visited tile. \<open>sz\<close> (\<^verbatim>\<open>size\<close>) and \<open>tbr\<close> are the realm's tile count
  and the table \<^verbatim>\<open>tiles_by_realm\<close>, both as taken at the start of the tick.
\<close>

definition other_size :: "(string \<times> nat list) list \<Rightarrow> string \<Rightarrow> nat" where
  "other_size tbr other_id =
     (let l = length (case map_of tbr other_id of None \<Rightarrow> [] | Some ts \<Rightarrow> ts)
      in if l = 0 then 1 else l)"

definition chance :: "nat \<Rightarrow> nat \<Rightarrow> real" where
  "chance sz osz = 0.4 * (real sz / (real sz + real osz))"

fun annex ::
  "string \<Rightarrow> nat \<Rightarrow> (string \<times> nat list) list \<Rightarrow> nat list \<Rightarrow> gen \<times> nat \<Rightarrow> gen \<times> nat" where
  "annex rid sz tbr [] (g, grown) = (g, grown)"
| "annex rid sz tbr (n # ns) (g, grown) =
     (if water (tiles g ! n) \<or> biome (tiles g ! n) = Mountain
        then annex rid sz tbr ns (g, grown)
      else case realm_id (tiles g ! n) of
        None \<Rightarrow>
          annex rid sz tbr ns (g\<lparr>tiles := set_realm (Some rid) n (tiles g)\<rparr>, grown + 1)
      | Some other_id \<Rightarrow>
          if other_id \<noteq> rid then
            (case rng_random (rng g) of (u, r') \<Rightarrow>
               if u < chance sz (other_size tbr other_id)
               then annex rid sz tbr ns
                      (g\<lparr>rng := r', tiles := set_realm (Some rid) n (tiles g)\<rparr>, grown + 1)
               else annex rid sz tbr ns (g\<lparr>rng := r'\<rparr>, grown))
          else annex rid sz tbr ns (g, grown))"

text \<open>
  \<^verbatim>\<open>for t in realm_tiles\<close>, with the counters \<^verbatim>\<open>grown\<close> and
  \<^verbatim>\<open>attempts\<close>, whose last values are returned with the generator.
\<close>

fun expand_visits ::
  "string \<Rightarrow> nat \<Rightarrow> nat \<Rightarrow> (string \<times> nat list) list \<Rightarrow> nat list \<Rightarrow> gen \<times> nat \<times> nat
   \<Rightarrow> gen \<times> nat \<times> nat" where
  "expand_visits rid sz desired_growth tbr [] (g, grown, attempts) = (g, grown, attempts)"
| "expand_visits rid sz desired_growth tbr (t # ts) (g, grown, attempts) =
     (if grown \<ge> desired_growth then (g, grown, attempts)
      else
        case annex rid sz tbr (neighbors g (tile_x (tiles g ! t)) (tile_y (tiles g ! t)))
               (g, grown) of
          (g', grown') \<Rightarrow>
            if attempts + 1 > desired_growth * 6 then (g', grown', attempts + 1)
            else expand_visits rid sz desired_growth tbr ts (g', grown', attempts + 1))"

definition is_peak_of :: "string \<Rightarrow> event \<Rightarrow> bool" where
  "is_peak_of rid e = (e_type e = EMPIRE_PEAK \<and> rid \<in> set (e_realm_ids e))"

definition empire_check :: "string \<Rightarrow> nat \<Rightarrow> int \<Rightarrow> gen \<Rightarrow> gen" where
  "empire_check rid sz year g =
     (case map_of (realms g) rid of
        None \<Rightarrow> g
      | Some realm \<Rightarrow>
          if real sz > real (width g * height g) * 0.18 \<and>
             list_all (\<lambda>e. \<not> is_peak_of rid e) (events g)
          then g\<lparr>realms := AList.update rid
                   (realm\<lparr>realm_notes := realm_notes realm @
                      [''Once ruled as a dominant realm around year '' @ str_int year @ ''.'']\<rparr>)
                   (realms g),
                 events := events g @
                   [\<lparr>e_id = ''event_empire_'' @ rid @ ''_'' @ str_int year, e_year = year,
                     e_type = EMPIRE_PEAK, e_realm_ids = [rid], e_settlement_id = None,
                     summary = realm_name realm @ '' reached its greatest extent.''\<rparr>]\<rparr>
          else g)"

definition realm_pass ::
  "int \<Rightarrow> (string \<times> nat list) list \<Rightarrow> string \<times> nat list \<Rightarrow> gen \<Rightarrow> gen" where
  "realm_pass year tbr item g =
     (case item of (rid, realm_tiles) \<Rightarrow>
        (case map_of (realms g) rid of
           None \<Rightarrow> g
         | Some realm \<Rightarrow>
             let sz = length realm_tiles;
                 desired_growth = max 1 (sz div 12)
             in case shuffle realm_tiles (rng g) of (shuffled, r') \<Rightarrow>
                  (case expand_visits rid sz desired_growth tbr shuffled (g\<lparr>rng := r'\<rparr>, 0, 0) of
                     (g1, grown, attempts) \<Rightarrow> empire_check rid sz year g1)))"

definition realm_expansion_tick :: "int \<Rightarrow> gen \<Rightarrow> gen" where
  "realm_expansion_tick year g =
     (let tbr = tiles_by_realm g in foldl (\<lambda>g' item. realm_pass year tbr item g') g tbr)"

definition event_type_str :: "event_type \<Rightarrow> string" where
  "event_type_str ty =
     (case ty of EMPIRE_PEAK \<Rightarrow> ''EMPIRE_PEAK'' | PLAGUE \<Rightarrow> ''PLAGUE''
               | CIVIL_WAR \<Rightarrow> ''CIVIL_WAR'' | SUCCESSION \<Rightarrow> ''SUCCESSION'')"

definition crisis_event :: "event_type \<Rightarrow> string \<Rightarrow> int \<Rightarrow> string \<Rightarrow> event" where
  "crisis_event crisis_type rid year msg =
     \<lparr>e_id = ''event_'' @ event_type_str crisis_type @ ''_'' @ rid @ ''_'' @ str_int year,
      e_year = year, e_type = crisis_type, e_realm_ids = [rid], e_settlement_id = None,
      summary = msg\<rparr>"

definition tiles_of_realm :: "gen \<Rightarrow> string \<Rightarrow> nat list" where
  "tiles_of_realm g rid =
     filter (\<lambda>i. realm_id (tiles g ! i) = Some rid) [0..<length (tiles g)]"

definition lose_territory :: "int \<Rightarrow> event_type \<Rightarrow> string \<Rightarrow> realm \<Rightarrow> nat list \<Rightarrow> gen \<Rightarrow> error + gen" where
  "lose_territory year crisis_type rid realm ts g =
     (let border_tiles = filter (is_border_tile g) ts
      in if border_tiles = [] then Inr g
         else case shuffle border_tiles (rng g) of (shuffled, r1) \<Rightarrow>
           bind_err (randint 6 10 r1) (\<lambda>(k, r2).
             let cut = max 1 (int (length ts) div k)
             in Inr (g\<lparr>rng := r2,
                       tiles := foldl (\<lambda>tl i. set_realm None i tl) (tiles g)
                                  (take (nat cut) shuffled),
                       events := events g @
                         [crisis_event crisis_type rid year
                            (realm_name realm @ '' lost territory to internal crisis.'')]\<rparr>)))"

definition civil_war :: "int \<Rightarrow> string \<Rightarrow> realm \<Rightarrow> nat list \<Rightarrow> gen \<Rightarrow> error + gen" where
  "civil_war year rid realm ts g =
     (if length (realms g) > 8 \<or> length ts < 12 then Inr g
      else
        let new_id = realm_key (length (realms g) + 1)
        in bind_err (make_realm_name (length (realms g)) (rng g)) (\<lambda>(name, r1).
           bind_err (random_color r1) (\<lambda>(col, r2).
             case shuffle ts r2 of (shuffled, r3) \<Rightarrow>
               Inr (g\<lparr>realms := AList.update new_id
                          \<lparr>realm_ident = new_id, realm_name = name, color = col,
                           capital_settlement_id = None, founded_year = year,
                           dissolved_year = None, culture = culture realm,
                           realm_notes = [''Splintered from '' @ realm_name realm @
                                          '' in civil war.''],
                           strength = None\<rparr> (realms g),
                       rng := r3,
                       tiles := foldl (\<lambda>tl i. set_realm (Some new_id) i tl) (tiles g)
                                  (take (length ts div 2) shuffled),
                       events := events g @
                         [crisis_event CIVIL_WAR rid year
                            (''Civil war split '' @ realm_name realm @ '', creating '' @
                             name @ ''.'')]\<rparr>))))"

definition random_crisis :: "int \<Rightarrow> gen \<Rightarrow> error + gen" where
  "random_crisis year g =
     (let realm_ids = filter (\<lambda>rid. realm_tile_count g rid > 0) (map fst (realms g))
      in if realm_ids = [] then Inr g
         else bind_err (choice realm_ids (rng g)) (\<lambda>(rid, r1).
           case map_of (realms g) rid of
             None \<Rightarrow> Inl KeyError
           | Some realm \<Rightarrow>
               let ts = tiles_of_realm g rid
               in if ts = [] then Inr (g\<lparr>rng := r1\<rparr>)
                  else bind_err (choice [PLAGUE, CIVIL_WAR, SUCCESSION] r1) (\<lambda>(crisis_type, r2).
                    if crisis_type = PLAGUE \<or> crisis_type = SUCCESSION
                    then lose_territory year crisis_type rid realm ts (g\<lparr>rng := r2\<rparr>)
                    else civil_war year rid realm ts (g\<lparr>rng := r2\<rparr>))))"

text \<open>
  What the stages after the terrain leave alone: the inputs of the run and, of every
  tile, the position, the terrain and the river flag.
\<close>

definition terrain :: "tile \<Rightarrow> nat \<times> nat \<times> real \<times> real \<times> biome \<times> bool \<times> bool" where
  "terrain t = (tile_x t, tile_y t, elevation t, moisture t, biome t, water t, river t)"

definition same_inputs :: "gen \<Rightarrow> gen \<Rightarrow> bool" where
  "same_inputs g g' =
     (width g' = width g \<and> height g' = height g \<and> years g' = years g \<and>
      base_sea_level g' = base_sea_level g \<and> mode g' = mode g \<and> seed g' = seed g \<and>
      settlement_namer g' = settlement_namer g)"

definition same_terrain :: "gen \<Rightarrow> gen \<Rightarrow> bool" where
  "same_terrain g g' = (same_inputs g g' \<and> map terrain (tiles g') = map terrain (tiles g))"

lemma same_terrain_refl: "same_terrain g g"
  by (simp add: same_terrain_def same_inputs_def)

lemma same_terrain_trans: "same_terrain a b \<Longrightarrow> same_terrain b c \<Longrightarrow> same_terrain a c"
  by (simp add: same_terrain_def same_inputs_def)

lemma same_terrain_years: "same_terrain g g' \<Longrightarrow> years g' = years g"
  by (simp add: same_terrain_def same_inputs_def)

lemma same_terrain_rng: "same_terrain g g' \<Longrightarrow> same_terrain g (g'\<lparr>rng := r\<rparr>)"
  by (simp add: same_terrain_def same_inputs_def)

lemma map_update_same: "f v = f (ts ! i) \<Longrightarrow> map f (ts[i := v]) = map f ts"
proof (cases "i < length ts")
  case True
  assume "f v = f (ts ! i)"
  with True show ?thesis by (simp add: map_update list_update_same_conv)
next
  case False
  then have "ts[i := v] = ts" by (intro list_update_beyond) simp
  then show ?thesis by simp
qed

lemma terrain_set_realm: "map terrain (set_realm v i ts) = map terrain ts"
  by (simp add: set_realm_def map_update_same terrain_def)

lemma terrain_set_realms: "map terrain (foldl (\<lambda>tl i. set_realm v i tl) ts is) = map terrain ts"
  by (induction "is" arbitrary: ts) (simp_all add: terrain_set_realm)

lemma idx_same: "width g' = width g \<Longrightarrow> idx g' x y = idx g x y"
  by (simp add: idx_def)

lemma neighbors_same: "width g' = width g \<Longrightarrow> height g' = height g \<Longrightarrow>
    neighbors g' x y = neighbors g x y"
  by (simp add: neighbors_def idx_def)

lemma annex_same_terrain: "annex rid sz tbr ns (g, grown) = (g', grown') \<Longrightarrow> same_terrain g g'"
proof (induction ns arbitrary: g grown)
  case Nil
  then show ?case by (simp add: same_terrain_refl)
next
  case (Cons n ns)
  have step: "\<And>g1 k. same_terrain g g1 \<Longrightarrow> annex rid sz tbr ns (g1, k) = (g', grown')
                \<Longrightarrow> same_terrain g g'"
    using Cons.IH same_terrain_trans by blast
  have a: "same_terrain g (g\<lparr>tiles := set_realm (Some rid) n (tiles g)\<rparr>)"
    by (simp add: same_terrain_def same_inputs_def terrain_set_realm)
  have b: "\<And>r. same_terrain g (g\<lparr>rng := r, tiles := set_realm (Some rid) n (tiles g)\<rparr>)"
    by (simp add: same_terrain_def same_inputs_def terrain_set_realm)
  have c: "\<And>r. same_terrain g (g\<lparr>rng := r\<rparr>)"
    by (simp add: same_terrain_def same_inputs_def)
  from Cons.prems show ?case
    by (auto split: if_splits option.splits prod.splits
             intro: step [OF same_terrain_refl] step [OF a] step [OF b] step [OF c])
qed

lemma expand_visits_same_terrain:
  "expand_visits rid sz d tbr ts (g, grown, attempts) = (g', grown', attempts')
   \<Longrightarrow> same_terrain g g'"
proof (induction ts arbitrary: g grown attempts)
  case Nil
  then show ?case by (simp add: same_terrain_refl)
next
  case (Cons t ts)
  show ?case
  proof (cases "grown \<ge> d")
    case True
    with Cons.prems show ?thesis by (simp add: same_terrain_refl)
  next
    case False
    obtain g1 k where ann:
      "annex rid sz tbr (neighbors g (tile_x (tiles g ! t)) (tile_y (tiles g ! t))) (g, grown)
       = (g1, k)"
      by (cases "annex rid sz tbr (neighbors g (tile_x (tiles g ! t)) (tile_y (tiles g ! t)))
                   (g, grown)")
    have g1: "same_terrain g g1"
      using ann by (rule annex_same_terrain)
    show ?thesis
    proof (cases "attempts + 1 > d * 6")
      case True
      with False Cons.prems ann g1 show ?thesis by simp
    next
      case False
      with \<open>\<not> grown \<ge> d\<close> Cons.prems ann
      have "expand_visits rid sz d tbr ts (g1, k, attempts + 1) = (g', grown', attempts')"
        by simp
      from Cons.IH [OF this] g1 show ?thesis
        by (rule same_terrain_trans [rotated])
    qed
  qed
qed

lemma empire_check_same_terrain: "same_terrain g (empire_check rid sz year g)"
  by (simp add: empire_check_def same_terrain_def same_inputs_def split: option.splits)

lemma realm_pass_same_terrain: "same_terrain g (realm_pass year tbr item g)"
proof (cases item)
  case (Pair rid realm_tiles)
  show ?thesis
  proof (cases "map_of (realms g) rid")
    case None
    with Pair show ?thesis by (simp add: realm_pass_def same_terrain_refl)
  next
    case (Some realm)
    obtain shuffled r' where sh: "shuffle realm_tiles (rng g) = (shuffled, r')"
      by (cases "shuffle realm_tiles (rng g)")
    obtain g1 grown attempts where ev:
      "expand_visits rid (length realm_tiles) (max 1 (length realm_tiles div 12)) tbr shuffled
         (g\<lparr>rng := r'\<rparr>, 0, 0) = (g1, grown, attempts)"
      by (cases "expand_visits rid (length realm_tiles) (max 1 (length realm_tiles div 12)) tbr
                   shuffled (g\<lparr>rng := r'\<rparr>, 0, 0)")
    have "same_terrain (g\<lparr>rng := r'\<rparr>) g1"
      using ev by (rule expand_visits_same_terrain)
    then have "same_terrain g g1"
      by (simp add: same_terrain_def same_inputs_def)
    then have "same_terrain g (empire_check rid (length realm_tiles) year g1)"
      using empire_check_same_terrain same_terrain_trans by blast
    with Pair Some sh ev show ?thesis
      by (simp add: realm_pass_def Let_def)
  qed
qed

lemma realm_passes_same_terrain:
  "same_terrain g (foldl (\<lambda>g' item. realm_pass year tbr item g') g items)"
proof (induction items arbitrary: g)
  case Nil
  show ?case by (simp add: same_terrain_refl)
next
  case (Cons item items)
  show ?case
    using same_terrain_trans [OF realm_pass_same_terrain Cons.IH] by simp
qed

lemma realm_expansion_tick_same_terrain: "same_terrain g (realm_expansion_tick year g)"
  by (simp add: realm_expansion_tick_def Let_def realm_passes_same_terrain)

lemma lose_territory_same_terrain:
  "lose_territory year ty rid realm ts g = Inr g' \<Longrightarrow> same_terrain g g'"
  by (auto simp: lose_territory_def Let_def bind_err_def same_terrain_def same_inputs_def
                 terrain_set_realms
           split: if_splits prod.splits sum.splits)

lemma civil_war_same_terrain:
  "civil_war year rid realm ts g = Inr g' \<Longrightarrow> same_terrain g g'"
  by (auto simp: civil_war_def Let_def bind_err_def same_terrain_def same_inputs_def
                 terrain_set_realms
           split: if_splits prod.splits sum.splits)

lemma random_crisis_same_terrain:
  "random_crisis year g = Inr g' \<Longrightarrow> same_terrain g g'"
proof -
  assume rc: "random_crisis year g = Inr g'"
  have r: "\<And>r h. same_terrain (g\<lparr>rng := r\<rparr>) h \<Longrightarrow> same_terrain g h"
    by (simp add: same_terrain_def same_inputs_def)
  from rc show ?thesis
    by (auto simp: random_crisis_def Let_def bind_err_def same_terrain_refl
             split: if_splits prod.splits sum.splits option.splits
             intro: r lose_territory_same_terrain civil_war_same_terrain
                    same_terrain_rng [OF same_terrain_refl])
qed

lemma tick_years: "years (realm_expansion_tick year g) = years g"
  using realm_expansion_tick_same_terrain [of g year] by (simp add: same_terrain_years)

lemma crisis_years: "random_crisis year g = Inr g' \<Longrightarrow> years g' = years g"
  by (drule random_crisis_same_terrain) (simp add: same_terrain_years)

text \<open>
  \<^verbatim>\<open>while current_year < self.years\<close>. The source computes \<^verbatim>\<open>step\<close> once,
  before the loop, from \<^verbatim>\<open>self.years\<close>, which nothing assigns: here it is
  computed from the same field at each turn.
\<close>

function history_loop :: "int \<Rightarrow> gen \<Rightarrow> error + gen" where
  "history_loop current_year g =
     (if current_year < years g then
        let step = max 10 (years g div 30);
            year = current_year + step;
            g1 = realm_expansion_tick year g
        in case rng_random (rng g1) of (u, r') \<Rightarrow>
             if u < 0.35 then
               (case random_crisis year (g1\<lparr>rng := r'\<rparr>) of
                  Inl e \<Rightarrow> Inl e
                | Inr g2 \<Rightarrow> history_loop year g2)
             else history_loop year (g1\<lparr>rng := r'\<rparr>)
      else Inr g)"
  by pat_completeness auto
termination
  by (relation "measure (\<lambda>(current_year, g). nat (years g - current_year))")
     (auto simp: tick_years dest: crisis_years)

definition set_strength :: "real option \<Rightarrow> (string \<times> realm) list \<Rightarrow> (string \<times> realm) list" where
  "set_strength v rs = map (\<lambda>(k, r). (k, r\<lparr>strength := v\<rparr>)) rs"

definition simulate_history :: "gen \<Rightarrow> error + gen" where
  "simulate_history g =
     (if realms g = [] then Inr g
      else bind_err (history_loop 0 (g\<lparr>realms := set_strength (Some 1) (realms g)\<rparr>))
             (\<lambda>g'. Inr (g'\<lparr>realms := set_strength None (realms g')\<rparr>)))"

subsection \<open>Settlements, roads, ruins\<close>

definition set_settlement :: "string option \<Rightarrow> nat \<Rightarrow> tile list \<Rightarrow> tile list" where
  "set_settlement v i ts = ts[i := (ts ! i)\<lparr>settlement_id := v\<rparr>]"

definition kind_of :: "settlement_type \<Rightarrow> string" where
  "kind_of stype = (case stype of City \<Rightarrow> ''city'' | Town \<Rightarrow> ''town'' | Fort \<Rightarrow> ''fort'')"

definition tags_of :: "settlement_type \<Rightarrow> tile \<Rightarrow> string list" where
  "tags_of stype t =
     (if stype = Fort then [''fortress''] else []) @
     (if river t then [''river_trade''] else []) @
     (if biome t = Wetlands then [''marsh_edge''] else [])"

text \<open>
  A town or a fort on tile \<open>t\<close>: the type is drawn first, then the name, the founding
  year and the population.
\<close>

definition new_settlement :: "string \<Rightarrow> nat \<Rightarrow> nat \<Rightarrow> gen \<Rightarrow> error + gen" where
  "new_settlement rid t sid_counter g =
     (case rng_random (rng g) of (u, r1) \<Rightarrow>
        let stype = (if u < 0.7 then Town else Fort);
            sid = settlement_key sid_counter
        in case settlement_namer g (kind_of stype) r1 of (name, r2) \<Rightarrow>
             bind_err (randint 10 (max 20 (years g div 2)) r2) (\<lambda>(fy, r3).
             bind_err (pop_estimate stype r3) (\<lambda>(pop, r4).
               Inr (g\<lparr>settlements := AList.update sid
                         \<lparr>s_id = sid, s_name = name, s_type = stype,
                          s_tile = (tile_x (tiles g ! t), tile_y (tiles g ! t)),
                          s_realm_id = rid, s_founded_year = fy, population = pop,
                          s_tags = tags_of stype (tiles g ! t), history = []\<rparr>
                         (settlements g),
                      rng := r4,
                      tiles := set_settlement (Some sid) t (tiles g)\<rparr>))))"

definition score :: "tile \<Rightarrow> nat" where
  "score t = (if river t then 2 else 0) + (if fertile_biome (biome t) then 1 else 0)"

text \<open>
  The secondary settlements of one realm: \<^verbatim>\<open>for t in realm_tiles\<close> over the
  shuffled tiles, with the counters \<^verbatim>\<open>sid_counter\<close> and \<^verbatim>\<open>placed\<close>.
\<close>

fun place_settlements ::
  "string \<Rightarrow> nat \<Rightarrow> nat list \<Rightarrow> gen \<times> nat \<times> nat \<Rightarrow> error + (gen \<times> nat \<times> nat)" where
  "place_settlements rid extra [] (g, sid_counter, placed) = Inr (g, sid_counter, placed)"
| "place_settlements rid extra (t # ts) (g, sid_counter, placed) =
     (if placed \<ge> extra then Inr (g, sid_counter, placed)
      else if truthy (settlement_id (tiles g ! t)) \<or> water (tiles g ! t)
        then place_settlements rid extra ts (g, sid_counter, placed)
      else if score (tiles g ! t) = 0
        then place_settlements rid extra ts (g, sid_counter, placed)
      else
        case new_settlement rid t sid_counter g of
          Inl e \<Rightarrow> Inl e
        | Inr g' \<Rightarrow> place_settlements rid extra ts (g', sid_counter + 1, placed + 1))"

text \<open>The capital of a realm, on the most central of its fertile tiles.\<close>

definition found_capital :: "string \<Rightarrow> nat list \<Rightarrow> nat \<Rightarrow> gen \<Rightarrow> error + gen" where
  "found_capital rid realm_tiles sid_counter g =
     (let fertile = filter (\<lambda>i. \<not> water (tiles g ! i) \<and> fertile_biome (biome (tiles g ! i)))
                      realm_tiles;
          candidates = (if fertile = [] then realm_tiles else fertile);
          cap_tile = most_central_tile g candidates;
          cap_id = settlement_key sid_counter
      in case settlement_namer g ''capital'' (rng g) of (cap_name, r1) \<Rightarrow>
         bind_err (pop_estimate City r1) (\<lambda>(pop, r2).
           case map_of (realms g) rid of
             None \<Rightarrow> Inl KeyError
           | Some realm \<Rightarrow>
               Inr (g\<lparr>settlements := AList.update cap_id
                         \<lparr>s_id = cap_id, s_name = cap_name, s_type = City,
                          s_tile = (tile_x (tiles g ! cap_tile), tile_y (tiles g ! cap_tile)),
                          s_realm_id = rid, s_founded_year = 0, population = pop,
                          s_tags = [''capital''],
                          history = [''Founded as the seat of '' @ realm_name realm @ ''.'']\<rparr>
                         (settlements g),
                      realms := AList.update rid
                        (realm\<lparr>capital_settlement_id := Some cap_id\<rparr>) (realms g),
                      rng := r2,
                      tiles := set_settlement (Some cap_id) cap_tile (tiles g)\<rparr>)))"

definition settle_realm :: "string \<times> nat list \<Rightarrow> gen \<times> nat \<Rightarrow> error + (gen \<times> nat)" where
  "settle_realm item st =
     (case item of (rid, realm_tiles) \<Rightarrow> case st of (g, sid_counter) \<Rightarrow>
        if realm_tiles = [] then Inr (g, sid_counter)
        else
          bind_err (found_capital rid realm_tiles sid_counter g) (\<lambda>g1.
            let extra = min 3 (max 1 (length realm_tiles div 80))
            in case shuffle realm_tiles (rng g1) of (shuffled, r3) \<Rightarrow>
                 bind_err (place_settlements rid extra shuffled
                             (g1\<lparr>rng := r3\<rparr>, sid_counter + 1, 0))
                   (\<lambda>(g2, sid_counter', placed). Inr (g2, sid_counter'))))"

definition derive_settlements :: "gen \<Rightarrow> error + gen" where
  "derive_settlements g =
     bind_err (for_each settle_realm (tiles_by_realm g) (g, 1)) (\<lambda>(g', sid_counter). Inr g')"

text \<open>
  The roads of one capital: \<^verbatim>\<open>for s in self.settlements.values()\<close>. The result is
  \<open>None\<close> when a call of \<^verbatim>\<open>_line_between\<close> does not return.
\<close>

fun roads_from :: "string \<Rightarrow> string \<Rightarrow> nat \<times> nat \<Rightarrow> settlement list \<Rightarrow> road list option" where
  "roads_from cap_id rid c [] = Some []"
| "roads_from cap_id rid c (s # ss) =
     (if s_realm_id s \<noteq> rid \<or> s_id s = cap_id then roads_from cap_id rid c ss
      else case line_between (int (fst c)) (int (snd c))
                  (int (fst (s_tile s))) (int (snd (s_tile s))) of
             None \<Rightarrow> None
           | Some path \<Rightarrow>
               (case roads_from cap_id rid c ss of
                  None \<Rightarrow> None
                | Some rs \<Rightarrow>
                    Some (\<lparr>road_from = cap_id, road_to = s_id s, road_tiles = path,
                           road_type = ''road''\<rparr> # rs)))"

definition realm_roads :: "gen \<Rightarrow> realm \<Rightarrow> road list option" where
  "realm_roads g realm =
     (case capital_settlement_id realm of
        None \<Rightarrow> Some []
      | Some cap_id \<Rightarrow>
          if cap_id = [] then Some []
          else case map_of (settlements g) cap_id of
                 None \<Rightarrow> Some []
               | Some cap \<Rightarrow>
                   roads_from cap_id (realm_ident realm) (s_tile cap) (map snd (settlements g)))"

fun all_roads :: "gen \<Rightarrow> realm list \<Rightarrow> road list option" where
  "all_roads g [] = Some []"
| "all_roads g (realm # rs) =
     (case realm_roads g realm of
        None \<Rightarrow> None
      | Some here \<Rightarrow> (case all_roads g rs of None \<Rightarrow> None | Some rest \<Rightarrow> Some (here @ rest)))"

definition derive_roads :: "gen \<Rightarrow> gen option" where
  "derive_roads g =
     (case all_roads g (map snd (realms g)) of
        None \<Rightarrow> None
      | Some rs \<Rightarrow> Some (g\<lparr>roads := roads g @ rs\<rparr>))"

definition ruin_candidates :: "gen \<Rightarrow> nat list" where
  "ruin_candidates g =
     filter (\<lambda>i. \<not> water (tiles g ! i) \<and> is_border_tile g i \<and>
                 \<not> truthy (settlement_id (tiles g ! i)))
       [0..<length (tiles g)]"

definition add_ruin :: "nat list \<Rightarrow> nat \<Rightarrow> gen \<Rightarrow> error + gen" where
  "add_ruin border_tiles i g =
     (let t = tiles g ! (border_tiles ! i)
      in case settlement_namer g ''ruin'' (rng g) of (name, r1) \<Rightarrow>
           bind_err (randint (max 5 (years g div 4)) (years g) r1) (\<lambda>(year, r2).
           bind_err (choice [Cause_CIVIL_WAR, Cause_RAID, Cause_PLAGUE, Cause_ARCANE_DISASTER] r2)
             (\<lambda>(c, r3).
               Inr (g\<lparr>ruins := ruins g @
                       [\<lparr>ruin_id = ''ruin_'' @ str_nat (i + 1), ruin_name = name,
                         ruin_tile = (tile_x t, tile_y t), origin_settlement_id = None,
                         destroyed_year = year, cause = c,
                         ruin_tags = [''haunted'', ''contested_border''],
                         ruin_notes = [''Legends speak of lost crowns and unquiet dead.'']\<rparr>],
                     rng := r3\<rparr>))))"

definition derive_ruins :: "gen \<Rightarrow> error + gen" where
  "derive_ruins g =
     (case shuffle (ruin_candidates g) (rng g) of (border_tiles, r') \<Rightarrow>
        let target = min 5 (length border_tiles div 30)
        in for_each (add_ruin border_tiles) [0..<target] (g\<lparr>rng := r'\<rparr>))"

subsection \<open>The colour map and the document\<close>

definition biome_color :: "biome \<Rightarrow> string" where
  "biome_color b =
     (case b of Mountain \<Rightarrow> ''#888888'' | Highland \<Rightarrow> ''#aa8c5f'' | Grassland \<Rightarrow> ''#7fbf3f''
              | Temperate_forest \<Rightarrow> ''#2e8b57'' | Wetlands \<Rightarrow> ''#3b6b6b'' | Desert \<Rightarrow> ''#d9c27f''
              | Ocean \<Rightarrow> ''#000000'')"

definition tile_color :: "gen \<Rightarrow> nat \<Rightarrow> nat \<Rightarrow> string" where
  "tile_color g y x =
     (let t = tiles g ! idx g x y
      in if (x, y) \<in> set (map ruin_tile (ruins g)) then ''#cc6666''
         else case map_of (rev (map (\<lambda>(k, s). (s_tile s, s)) (settlements g))) (x, y) of
                Some st \<Rightarrow>
                  (case s_type st of City \<Rightarrow> ''#ffcc00'' | Town \<Rightarrow> ''#ffd966'' | Fort \<Rightarrow> ''#ff9900'')
              | None \<Rightarrow>
                  if water t then
                    (if elevation t < base_sea_level g * 0.6 then ''#1b3b6f'' else ''#3465a4'')
                  else if river t then ''#3f8dd9''
                  else biome_color (biome t))"

definition legend :: "(string \<times> string) list" where
  "legend =
     [(''#1b3b6f'', ''deep_ocean''), (''#3465a4'', ''shallow_ocean''), (''#3f8dd9'', ''river''),
      (''#7fbf3f'', ''grassland''), (''#2e8b57'', ''temperate_forest''),
      (''#aa8c5f'', ''highland''), (''#888888'', ''mountain''), (''#d9c27f'', ''desert''),
      (''#3b6b6b'', ''wetlands''), (''#ffcc00'', ''city''), (''#ffd966'', ''town''),
      (''#ff9900'', ''fort''), (''#cc6666'', ''ruin'')]"

definition build_color_map :: "gen \<Rightarrow> string list list \<times> (string \<times> string) list" where
  "build_color_map g =
     (map (\<lambda>y. map (tile_color g y) [0..<width g]) [0..<height g], legend)"

record document =
  doc_schema :: string
  doc_seed :: int
  doc_width :: nat
  doc_height :: nat
  doc_years :: int
  doc_mode :: string
  doc_tiles :: "tile list"
  doc_realms :: "realm list"
  doc_settlements :: "settlement list"
  doc_roads :: "road list"
  doc_ruins :: "ruin list"
  doc_events :: "event list"
  doc_color_rows :: "string list list"
  doc_color_legend :: "(string \<times> string) list"

definition to_document :: "gen \<Rightarrow> document" where
  "to_document g =
     \<lparr>doc_schema = ''region.v1'', doc_seed = seed g, doc_width = width g,
      doc_height = height g, doc_years = years g, doc_mode = mode g, doc_tiles = tiles g,
      doc_realms = map snd (realms g), doc_settlements = map snd (settlements g),
      doc_roads = roads g, doc_ruins = ruins g, doc_events = events g,
      doc_color_rows = fst (build_color_map g), doc_color_legend = snd (build_color_map g)\<rparr>"

text \<open>
  The stages up to the settlements, and the whole of \<^verbatim>\<open>generate_region\<close>. The
  result is \<open>None\<close> when the run does not return, \<open>Some (Inl e)\<close> when it raises \<open>e\<close>.
\<close>

definition history_stages :: "gen \<Rightarrow> error + gen" where
  "history_stages g =
     bind_err (generate_base_tiles g) (\<lambda>g1.
     bind_err (spawn_initial_realms g1) simulate_history)"

definition generate_gen :: "gen \<Rightarrow> (error + gen) option" where
  "generate_gen g =
     (case bind_err (history_stages g) derive_settlements of
        Inl e \<Rightarrow> Some (Inl e)
      | Inr g4 \<Rightarrow>
          (case derive_roads g4 of
             None \<Rightarrow> None
           | Some g5 \<Rightarrow> Some (derive_ruins g5)))"

definition generate_region :: "gen \<Rightarrow> (error + document) option" where
  "generate_region g =
     (case generate_gen g of
        None \<Rightarrow> None
      | Some (Inl e) \<Rightarrow> Some (Inl e)
      | Some (Inr g') \<Rightarrow> Some (Inr (to_document g')))"

text \<open>
  \<^verbatim>\<open>__init__\<close>. What the constructor takes from outside the class is passed in:
  \<open>Random\<close> is the library's \<^verbatim>\<open>random.Random(seed)\<close>, \<open>global_random\<close> the state
  of the module-level generator that \<^verbatim>\<open>random.randint(0, 999999)\<close> draws from when
  no seed is given, \<open>default_namer\<close> the name generator built from
  \<^verbatim>\<open>settlement_name_data.json\<close> when none is given.
\<close>

definition init ::
  "(int \<Rightarrow> rng) \<Rightarrow> rng \<Rightarrow> (string \<Rightarrow> rng \<Rightarrow> string \<times> rng) \<Rightarrow>
   nat \<Rightarrow> nat \<Rightarrow> int \<Rightarrow> int option \<Rightarrow> real \<Rightarrow> string \<Rightarrow>
   (string \<Rightarrow> rng \<Rightarrow> string \<times> rng) option \<Rightarrow> error + gen" where
  "init Random global_random default_namer w h yrs seed_arg sea_level mode_arg namer_arg =
     bind_err
       (case seed_arg of
          None \<Rightarrow> bind_err (randint 0 999999 global_random) (\<lambda>(s, r). Inr s)
        | Some s \<Rightarrow> Inr s)
       (\<lambda>s. Inr \<lparr>width = w, height = h, years = yrs, base_sea_level = sea_level,
                 mode = (if mode_arg = ''continent'' \<or> mode_arg = ''archipelago''
                         then mode_arg else ''continent''),
                 seed = s, rng = Random s,
                 settlement_namer = (case namer_arg of None \<Rightarrow> default_namer | Some n \<Rightarrow> n),
                 tiles = [], realms = [], settlements = [], events = [], roads = [],
                 ruins = []\<rparr>)"

definition run ::
  "(int \<Rightarrow> rng) \<Rightarrow> rng \<Rightarrow> (string \<Rightarrow> rng \<Rightarrow> string \<times> rng) \<Rightarrow>
   nat \<Rightarrow> nat \<Rightarrow> int \<Rightarrow> int option \<Rightarrow> real \<Rightarrow> string \<Rightarrow>
   (string \<Rightarrow> rng \<Rightarrow> string \<times> rng) option \<Rightarrow> (error + document) option" where
  "run Random global_random default_namer w h yrs seed_arg sea_level mode_arg namer_arg =
     (case init Random global_random default_namer w h yrs seed_arg sea_level mode_arg namer_arg of
        Inl e \<Rightarrow> Some (Inl e)
      | Inr g \<Rightarrow> generate_region g)"

subsection \<open>The vocabulary of the properties\<close>

text \<open>
  A road is a path of king's moves: from one coordinate to the next, each of \<open>x\<close> and
  \<open>y\<close> changes by at most one, and one of them changes.
\<close>

definition king_step :: "int \<times> int \<Rightarrow> int \<times> int \<Rightarrow> bool" where
  "king_step p q = (max \<bar>fst q - fst p\<bar> \<bar>snd q - snd p\<bar> = 1)"

fun stepwise :: "(int \<times> int) list \<Rightarrow> bool" where
  "stepwise (p # q # ps) = (king_step p q \<and> stepwise (q # ps))"
| "stepwise ps = True"

definition joins :: "int \<times> int \<Rightarrow> int \<times> int \<Rightarrow> (int \<times> int) list \<Rightarrow> bool" where
  "joins a b path = (path \<noteq> [] \<and> hd path = a \<and> last path = b \<and> stepwise path)"

definition land_view :: "tile \<Rightarrow> (nat \<times> nat \<times> real \<times> real \<times> biome \<times> bool \<times> bool) \<times> string option" where
  "land_view t = (terrain t, realm_id t)"

definition same_land :: "gen \<Rightarrow> gen \<Rightarrow> bool" where
  "same_land g g' = (same_inputs g g' \<and> map land_view (tiles g') = map land_view (tiles g))"

definition coords :: "tile \<Rightarrow> nat \<times> nat" where
  "coords t = (tile_x t, tile_y t)"

definition clamp :: "nat \<Rightarrow> nat \<Rightarrow> nat \<Rightarrow> nat" where
  "clamp lo hi v = max lo (min hi v)"

definition manhattan :: "nat \<times> nat \<Rightarrow> nat \<times> nat \<Rightarrow> int" where
  "manhattan p q = \<bar>int (fst p) - int (fst q)\<bar> + \<bar>int (snd p) - int (snd q)\<bar>"

definition owned :: "gen \<Rightarrow> nat set" where
  "owned g = {i. i < length (tiles g) \<and> realm_id (tiles g ! i) \<noteq> None}"

definition far_apart :: "gen \<Rightarrow> bool" where
  "far_apart g = (\<forall>i \<in> owned g. \<forall>j \<in> owned g. i \<noteq> j \<longrightarrow>
                    6 \<le> manhattan (coords (tiles g ! i)) (coords (tiles g ! j)))"

definition grass :: "nat \<Rightarrow> nat \<Rightarrow> tile" where
  "grass x y = \<lparr>tile_x = x, tile_y = y, elevation = 1 / 2, moisture = 3 / 10,
               biome = Grassland, water = False, river = False,
               realm_id = None, settlement_id = None\<rparr>"

definition no_names :: "string \<Rightarrow> rng \<Rightarrow> string \<times> rng" where
  "no_names kind r = (kind, r)"

definition meadow :: gen where
  "meadow = \<lparr>width = 7, height = 2, years = 0, base_sea_level = 35 / 100,
             mode = ''continent'', seed = 1, rng = [], settlement_namer = no_names,
             tiles = map (\<lambda>x. grass x 0) [0..<7] @ map (\<lambda>x. grass x 1) [0..<7],
             realms = [], settlements = [], events = [], roads = [], ruins = []\<rparr>"

definition tbr_step :: "gen \<Rightarrow> (string \<times> nat list) list \<Rightarrow> nat \<Rightarrow> (string \<times> nat list) list" where
  "tbr_step g m i =
     (case realm_id (tiles g ! i) of
        None \<Rightarrow> m
      | Some rid \<Rightarrow>
          if rid = [] then m
          else AList.update rid ((case map_of m rid of None \<Rightarrow> [] | Some l \<Rightarrow> l) @ [i]) m)"

definition held :: "gen \<Rightarrow> string \<Rightarrow> nat \<Rightarrow> nat list" where
  "held g rid k = filter (\<lambda>i. realm_id (tiles g ! i) = Some rid) [0..<k]"

definition is_land :: "tile \<Rightarrow> bool" where
  "is_land t = (\<not> water t \<and> biome t \<noteq> Mountain)"

definition land_owned :: "tile list \<Rightarrow> bool" where
  "land_owned ts = (\<forall>t \<in> set ts. realm_id t \<noteq> None \<longrightarrow> is_land t)"

definition owned_land :: "gen \<Rightarrow> bool" where
  "owned_land g = land_owned (tiles g)"

definition grid_upto :: "gen \<Rightarrow> nat \<Rightarrow> bool" where
  "grid_upto g n = (length (tiles g) = n \<and>
     (\<forall>i < n. coords (tiles g ! i) = (i mod width g, i div width g)))"

definition grid_ok :: "gen \<Rightarrow> bool" where
  "grid_ok g = grid_upto g (width g * height g)"

definition fresh_tile :: "tile \<Rightarrow> bool" where
  "fresh_tile t = (realm_id t = None \<and> settlement_id t = None \<and> \<not> river t \<and>
                   (water t \<longleftrightarrow> biome t = Ocean))"

definition appended :: "gen \<Rightarrow> gen \<Rightarrow> tile \<Rightarrow> bool" where
  "appended g g' t = (\<exists>r. g' = g\<lparr>tiles := tiles g @ [t], rng := r\<rparr>)"

definition same_books :: "gen \<Rightarrow> gen \<Rightarrow> bool" where
  "same_books g g' = (same_inputs g g' \<and> realms g' = realms g \<and> settlements g' = settlements g
     \<and> events g' = events g \<and> roads g' = roads g \<and> ruins g' = ruins g)"

definition row_built :: "gen \<Rightarrow> nat \<Rightarrow> nat \<Rightarrow> gen \<Rightarrow> bool" where
  "row_built g y i g' = (same_books g g' \<and> grid_upto g' (y * width g + i)
     \<and> (\<forall>t \<in> set (tiles g'). fresh_tile t))"


text \<open>
  The non-water tiles, their adjacency, and the 4-connected component of a tile
  among them.
\<close>

definition land :: "gen \<Rightarrow> nat set" where
  "land g = {i. i < length (tiles g) \<and> \<not> water (tiles g ! i)}"








section \<open>Properties\<close>

subsection \<open>Loops and exceptions\<close>

lemma bind_err_Inr: "bind_err m f = Inr v \<longleftrightarrow> (\<exists>a. m = Inr a \<and> f a = Inr v)"
  by (cases m) (simp_all add: bind_err_def)

lemma for_each_invariant:
  assumes "for_each f xs s = Inr s'" and "P s"
    and "\<And>x a b. x \<in> set xs \<Longrightarrow> P a \<Longrightarrow> f x a = Inr b \<Longrightarrow> P b"
  shows "P s'"
  using assms
proof (induction xs arbitrary: s)
  case Nil
  then show ?case by simp
next
  case (Cons x xs)
  from Cons.prems(1) obtain m where m: "f x s = Inr m" and rest: "for_each f xs m = Inr s'"
    by (auto split: sum.splits)
  have "P m" using Cons.prems(2,3) m by auto
  with rest Cons.IH Cons.prems(3) show ?case by auto
qed

subsection \<open>The line between two tiles\<close>

lemma joins_single: "joins a a [a]"
  by (simp add: joins_def)

lemma joins_Cons: "joins b c path \<Longrightarrow> king_step a b \<Longrightarrow> joins a c (a # path)"
  by (cases path) (auto simp: joins_def)

lemma line_loop_returns:
  fixes rx ry :: int
  assumes "0 \<le> rx" "rx \<le> dx" "0 \<le> ry" "ry \<le> - dy"
    and "x1 - x = sx * rx" "y1 - y = sy * ry"
    and "sx = 1 \<or> sx = - 1" "sy = 1 \<or> sy = - 1"
    and "err = dx + dy - rx * dy - ry * dx"
  shows "\<exists>path. line_loop x1 y1 dx dy sx sy err x y points = Some (points @ path)
                \<and> joins (x, y) (x1, y1) path"
  using assms
proof (induction "nat (rx + ry)" arbitrary: rx ry x y err points rule: less_induct)
  case less
  show ?case
  proof (cases "x = x1 \<and> y = y1")
    case True
    then show ?thesis
      by (subst line_loop.simps) (auto simp: joins_single)
  next
    case False
    have pos: "0 < rx \<or> 0 < ry"
      using False less.prems by (cases "rx = 0"; cases "ry = 0") auto
    define stepx where "stepx = (2 * err \<ge> dy)"
    define stepy where "stepy = (2 * err \<le> dx)"
    define x' where "x' = (if stepx then x + sx else x)"
    define y' where "y' = (if stepy then y + sy else y)"
    define rx' where "rx' = (if stepx then rx - 1 else rx)"
    define ry' where "ry' = (if stepy then ry - 1 else ry)"
    define err' where "err' = (if stepy then (if stepx then err + dy else err) + dx
                               else (if stepx then err + dy else err))"
    have e: "2 * err = 2 * dx + 2 * dy - 2 * (rx * dy) - 2 * (ry * dx)"
      using less.prems(9) by simp
    have m1: "ry * dx \<ge> dx" if "ry \<ge> 1"
      using that less.prems(1,2) mult_right_mono [of 1 ry dx] by simp
    have m2: "rx * dy \<le> dy" if "rx \<ge> 1"
      using that less.prems(3,4) mult_right_mono_neg [of 1 rx dy] by simp
    have m3: "ry * dx \<ge> 0" using less.prems by simp
    have m4: "rx * dy \<le> 0" using less.prems by (simp add: mult_nonneg_nonpos)
    have sxp: "stepx \<Longrightarrow> 0 < rx"
    proof (rule ccontr)
      assume sx: "stepx" and "\<not> 0 < rx"
      then have rx0: "rx = 0" using less.prems(1) by simp
      then have "ry \<ge> 1" using pos by simp
      from m1 [OF this] this less.prems(4) sx e rx0 show False
        unfolding stepx_def by simp
    qed
    have syp: "stepy \<Longrightarrow> 0 < ry"
    proof (rule ccontr)
      assume sy: "stepy" and "\<not> 0 < ry"
      then have ry0: "ry = 0" using less.prems(3) by simp
      then have "rx \<ge> 1" using pos by simp
      from m2 [OF this] this less.prems(2) sy e ry0 show False
        unfolding stepy_def by simp
    qed
    have some: "stepx \<or> stepy"
      unfolding stepx_def stepy_def using less.prems(1-4) by linarith
    have dec: "nat (rx' + ry') < nat (rx + ry)"
      using some sxp syp less.prems(1,3) unfolding rx'_def ry'_def by auto
    have b1: "0 \<le> rx'" "rx' \<le> dx" "0 \<le> ry'" "ry' \<le> - dy"
      using sxp syp less.prems(1-4) unfolding rx'_def ry'_def by auto
    have c1: "x1 - x' = sx * rx'"
      using less.prems(5,7) unfolding x'_def rx'_def by (auto simp: algebra_simps)
    have c2: "y1 - y' = sy * ry'"
      using less.prems(6,8) unfolding y'_def ry'_def by (auto simp: algebra_simps)
    have c3: "err' = dx + dy - rx' * dy - ry' * dx"
      using less.prems(9) unfolding err'_def rx'_def ry'_def by (auto simp: algebra_simps)
    from less.hyps [OF dec b1 c1 c2 less.prems(7,8) c3, of "points @ [(x, y)]"]
    obtain path where p: "line_loop x1 y1 dx dy sx sy err' x' y' (points @ [(x, y)])
                           = Some ((points @ [(x, y)]) @ path)"
      and j: "joins (x', y') (x1, y1) path"
      by blast
    have ks: "king_step (x, y) (x', y')"
      using some less.prems(7,8) unfolding king_step_def x'_def y'_def by auto
    have "line_loop x1 y1 dx dy sx sy err x y points
          = line_loop x1 y1 dx dy sx sy err' x' y' (points @ [(x, y)])"
      apply (subst line_loop.simps)
      apply (subst if_not_P [OF False])
      apply (simp add: Let_def x'_def y'_def err'_def stepx_def stepy_def)
      done
    with p have "line_loop x1 y1 dx dy sx sy err x y points = Some (points @ ((x, y) # path))"
      by simp
    moreover have "joins (x, y) (x1, y1) ((x, y) # path)"
      using j ks by (rule joins_Cons)
    ultimately show ?thesis by blast
  qed
qed

lemma line_between_returns:
  "\<exists>path. line_between x0 y0 x1 y1 = Some path \<and> joins (x0, y0) (x1, y1) path"
proof -
  have "\<exists>path. line_loop x1 y1 \<bar>x1 - x0\<bar> (- \<bar>y1 - y0\<bar>) (if x0 < x1 then 1 else - 1)
           (if y0 < y1 then 1 else - 1) (\<bar>x1 - x0\<bar> + - \<bar>y1 - y0\<bar>) x0 y0 []
          = Some ([] @ path) \<and> joins (x0, y0) (x1, y1) path"
    by (rule line_loop_returns [where rx = "\<bar>x1 - x0\<bar>" and ry = "\<bar>y1 - y0\<bar>"])
       (auto simp: algebra_simps)
  then show ?thesis
    by (simp add: line_between_def Let_def)
qed

subsection \<open>What the later stages leave alone\<close>

lemma found_realm_same_terrain: "found_realm rid index i g = Inr g' \<Longrightarrow> same_terrain g g'"
  by (auto simp: found_realm_def bind_err_Inr same_terrain_def same_inputs_def terrain_set_realm)

lemma spawn_loop_same_terrain:
  "spawn_loop target fertile is used g = Inr g' \<Longrightarrow> same_terrain g g'"
proof (induction "is" arbitrary: used g)
  case Nil
  then show ?case by (simp add: same_terrain_refl)
next
  case (Cons i "is")
  from Cons.prems show ?case
    by (auto simp: Let_def same_terrain_refl split: if_splits sum.splits
             dest!: Cons.IH found_realm_same_terrain intro: same_terrain_trans)
qed

lemma spawn_initial_realms_same_terrain:
  "spawn_initial_realms g = Inr g' \<Longrightarrow> same_terrain g g'"
proof -
  assume a: "spawn_initial_realms g = Inr g'"
  obtain fertile r' where sh: "shuffle (fertile_tiles g) (rng g) = (fertile, r')"
    by (cases "shuffle (fertile_tiles g) (rng g)")
  from a sh obtain g1 where
    l: "spawn_loop (max 2 (min 6 ((width g * height g) div 1200))) fertile
          [0..<max 2 (min 6 ((width g * height g) div 1200)) * 2] [] (g\<lparr>rng := r'\<rparr>) = Inr g1"
    and f: "(if realms g1 = [] \<and> fertile \<noteq> [] then found_realm ''realm_1'' 0 (fertile ! 0) g1
             else Inr g1) = Inr g'"
    by (auto simp: spawn_initial_realms_def Let_def bind_err_Inr)
  have a1: "same_terrain g (g\<lparr>rng := r'\<rparr>)"
    by (simp add: same_terrain_rng same_terrain_refl)
  have a2: "same_terrain (g\<lparr>rng := r'\<rparr>) g1"
    using l by (rule spawn_loop_same_terrain)
  have a3: "same_terrain g1 g'"
    using f by (auto split: if_splits simp: same_terrain_refl dest: found_realm_same_terrain)
  show ?thesis
    using a1 a2 a3 same_terrain_trans by blast
qed

lemma history_loop_invariant:
  assumes "history_loop cy g = Inr g'" and "P g"
    and tick: "\<And>year a. P a \<Longrightarrow> P (realm_expansion_tick year a)"
    and rng: "\<And>a r. P a \<Longrightarrow> P (a\<lparr>rng := r\<rparr>)"
    and crisis: "\<And>year a b. P a \<Longrightarrow> random_crisis year a = Inr b \<Longrightarrow> P b"
  shows "P g'"
  using assms(1,2)
proof (induction cy g rule: history_loop.induct)
  case (1 current_year g)
  show ?case
  proof (cases "current_year < years g")
    case False
    with "1.prems" show ?thesis by simp
  next
    case True
    let ?year = "current_year + max 10 (years g div 30)"
    let ?g1 = "realm_expansion_tick ?year g"
    obtain u r' where rr: "rng_random (rng ?g1) = (u, r')"
      by (cases "rng_random (rng ?g1)")
    have p1: "P (?g1\<lparr>rng := r'\<rparr>)"
      using "1.prems"(2) tick rng by blast
    show ?thesis
    proof (cases "u < 0.35")
      case False
      with True "1.prems"(1) rr have h: "history_loop ?year (?g1\<lparr>rng := r'\<rparr>) = Inr g'"
        by (simp add: Let_def)
      show ?thesis
        by (rule "1.IH"(2) [OF True refl refl refl rr [symmetric] False h p1])
    next
      case u: True
      with True "1.prems"(1) rr obtain g2 where
        c: "random_crisis ?year (?g1\<lparr>rng := r'\<rparr>) = Inr g2" and h: "history_loop ?year g2 = Inr g'"
        by (auto simp: Let_def split: sum.splits)
      have p2: "P g2" using crisis [OF p1 c] .
      show ?thesis
        by (rule "1.IH"(1) [OF True refl refl refl rr [symmetric] u c h p2])
    qed
  qed
qed

lemma history_loop_same_terrain:
  assumes "history_loop cy g = Inr g'"
  shows "same_terrain g g'"
proof (rule history_loop_invariant [OF assms, where P = "same_terrain g"])
  show "same_terrain g g" by (rule same_terrain_refl)
  show "\<And>year a. same_terrain g a \<Longrightarrow> same_terrain g (realm_expansion_tick year a)"
    using realm_expansion_tick_same_terrain same_terrain_trans by blast
  show "\<And>a r. same_terrain g a \<Longrightarrow> same_terrain g (a\<lparr>rng := r\<rparr>)"
    by (rule same_terrain_rng)
  show "\<And>year a b. same_terrain g a \<Longrightarrow> random_crisis year a = Inr b \<Longrightarrow> same_terrain g b"
    using random_crisis_same_terrain same_terrain_trans by blast
qed

subsection \<open>Shuffling permutes\<close>

lemma randbelow_less: "0 < n \<Longrightarrow> fst (randbelow n r) < n"
  by (simp add: randbelow_def split: prod.splits)

lemma shuffle_from_mset:
  "i < length xs \<Longrightarrow> shuffle_from i xs r = (ys, r') \<Longrightarrow> mset ys = mset xs"
proof (induction i arbitrary: xs r)
  case 0
  then show ?case by simp
next
  case (Suc i)
  obtain j r1 where rb: "randbelow (Suc (Suc i)) r = (j, r1)"
    by (cases "randbelow (Suc (Suc i)) r")
  have "j < Suc (Suc i)"
    using randbelow_less [of "Suc (Suc i)" r] rb by simp
  with Suc.prems(1) have j: "j < length xs" by simp
  let ?xs = "xs[Suc i := xs ! j, j := xs ! Suc i]"
  have m: "mset ?xs = mset xs"
    using mset_swap [OF j Suc.prems(1)] by simp
  from Suc.prems(2) rb have "shuffle_from i ?xs r1 = (ys, r')" by simp
  moreover have "i < length ?xs" using Suc.prems(1) by simp
  ultimately have "mset ys = mset ?xs" by (rule Suc.IH [rotated])
  with m show ?case by simp
qed

lemma shuffle_mset: "shuffle xs r = (ys, r') \<Longrightarrow> mset ys = mset xs"
proof (cases "xs = []")
  case True
  then show "shuffle xs r = (ys, r') \<Longrightarrow> mset ys = mset xs"
    by (simp add: shuffle_def)
next
  case False
  assume "shuffle xs r = (ys, r')"
  then have "shuffle_from (length xs - 1) xs r = (ys, r')" by (simp add: shuffle_def)
  moreover have "length xs - 1 < length xs" using False by simp
  ultimately show "mset ys = mset xs" by (rule shuffle_from_mset [rotated])
qed

lemma shuffle_set: "shuffle xs r = (ys, r') \<Longrightarrow> set ys = set xs"
  by (drule shuffle_mset) (rule mset_eq_setD)

lemma shuffle_length: "shuffle xs r = (ys, r') \<Longrightarrow> length ys = length xs"
  by (drule shuffle_mset) (rule mset_eq_length)

lemma shuffle_distinct: "shuffle xs r = (ys, r') \<Longrightarrow> distinct xs \<Longrightarrow> distinct ys"
  using mset_eq_imp_distinct_iff [OF shuffle_mset] by blast

subsection \<open>The random draws that cannot fail\<close>

lemma randint_ok: "a \<le> b \<Longrightarrow> \<exists>k r'. randint a b r = Inr (k, r') \<and> a \<le> k \<and> k \<le> b"
proof -
  assume ab: "a \<le> b"
  obtain j r' where rb: "randbelow (nat (b - a + 1)) r = (j, r')"
    by (cases "randbelow (nat (b - a + 1)) r")
  have "j < nat (b - a + 1)"
    using randbelow_less [of "nat (b - a + 1)" r] rb ab by simp
  with ab rb show ?thesis by (auto simp: randint_def)
qed

lemma randint_range: "randint a b r = Inr (k, r') \<Longrightarrow> a \<le> k \<and> k \<le> b"
proof -
  assume ri: "randint a b r = Inr (k, r')"
  then have ab: "a \<le> b" by (auto simp: randint_def split: if_splits)
  from randint_ok [OF ab, of r] ri show ?thesis by auto
qed

lemma choice_ok: "xs \<noteq> [] \<Longrightarrow> \<exists>v r'. choice xs r = Inr (v, r') \<and> v \<in> set xs"
proof -
  assume ne: "xs \<noteq> []"
  obtain j r' where rb: "randbelow (length xs) r = (j, r')"
    by (cases "randbelow (length xs) r")
  have "j < length xs"
    using randbelow_less [of "length xs" r] rb ne by simp
  with ne rb show ?thesis by (auto simp: choice_def)
qed

lemma choice_mem: "choice xs r = Inr (v, r') \<Longrightarrow> v \<in> set xs"
proof -
  assume c: "choice xs r = Inr (v, r')"
  then have "xs \<noteq> []" by (auto simp: choice_def split: if_splits)
  from choice_ok [OF this, of r] c show ?thesis by auto
qed

lemma random_color_ok: "\<exists>c r'. random_color r = Inr (c, r')"
proof -
  obtain a r1 where 1: "randint 80 220 r = Inr (a, r1)" using randint_ok [of 80 220 r] by auto
  obtain b r2 where 2: "randint 80 220 r1 = Inr (b, r2)" using randint_ok [of 80 220 r1] by auto
  obtain c r3 where 3: "randint 80 220 r2 = Inr (c, r3)" using randint_ok [of 80 220 r2] by auto
  show ?thesis by (simp add: random_color_def bind_err_def 1 2 3)
qed

lemma make_realm_name_ok: "\<exists>n r'. make_realm_name i r = Inr (n, r')"
proof -
  let ?ps = "[''Ashen'', ''Grey'', ''Varn'', ''Eld'', ''Kor'', ''Thorn'', ''Mar'', ''Sel'', ''Drak'']"
  let ?ss = "[''hold'', ''reach'', ''marches'', ''realm'', ''clan'', ''throne'', ''dominion'']"
  obtain p r1 where 1: "choice ?ps r = Inr (p, r1)" using choice_ok [of ?ps r] by auto
  obtain s r2 where 2: "choice ?ss r1 = Inr (s, r2)" using choice_ok [of ?ss r1] by auto
  show ?thesis by (simp add: make_realm_name_def bind_err_def 1 2)
qed

lemma pop_estimate_ok: "\<exists>p r'. pop_estimate ty r = Inr (p, r')"
  using randint_ok [of 8000 25000 r] randint_ok [of 1500 6000 r] randint_ok [of 400 1800 r]
  by (cases ty) (auto simp: pop_estimate_def)

subsection \<open>Settlements, roads and ruins keep the land\<close>

lemma same_land_refl: "same_land g g"
  by (simp add: same_land_def same_inputs_def)

lemma same_land_trans: "same_land a b \<Longrightarrow> same_land b c \<Longrightarrow> same_land a c"
  by (simp add: same_land_def same_inputs_def)

lemma same_land_terrain: "same_land g g' \<Longrightarrow> same_terrain g g'"
proof -
  assume a: "same_land g g'"
  then have "map (fst \<circ> land_view) (tiles g') = map (fst \<circ> land_view) (tiles g)"
    unfolding same_land_def using map_map [of fst land_view] by metis
  moreover have "fst \<circ> land_view = terrain" by (auto simp: land_view_def)
  ultimately show ?thesis using a by (simp add: same_land_def same_terrain_def)
qed

lemma same_land_realm_ids: "same_land g g' \<Longrightarrow> map realm_id (tiles g') = map realm_id (tiles g)"
proof -
  assume a: "same_land g g'"
  then have "map (snd \<circ> land_view) (tiles g') = map (snd \<circ> land_view) (tiles g)"
    unfolding same_land_def using map_map [of snd land_view] by metis
  moreover have "snd \<circ> land_view = realm_id" by (auto simp: land_view_def)
  ultimately show ?thesis by simp
qed

lemma land_view_set_settlement: "map land_view (set_settlement v i ts) = map land_view ts"
  by (simp add: set_settlement_def map_update_same land_view_def terrain_def)

lemma new_settlement_shape:
  assumes "new_settlement rid t c g = Inr g'"
  shows "\<exists>s r. g' = g\<lparr>settlements := AList.update (settlement_key c) s (settlements g),
                       rng := r,
                       tiles := set_settlement (Some (settlement_key c)) t (tiles g)\<rparr>
               \<and> s_id s = settlement_key c \<and> s_realm_id s = rid
               \<and> s_tile s = coords (tiles g ! t) \<and> s_type s \<noteq> City"
proof -
  obtain u r1 where 1: "rng_random (rng g) = (u, r1)" by (cases "rng_random (rng g)")
  obtain stype :: settlement_type where st: "stype = (if u < 0.7 then Town else Fort)" by simp
  obtain name r2 where 2: "settlement_namer g (kind_of stype) r1 = (name, r2)"
    by (cases "settlement_namer g (kind_of stype) r1")
  have nc: "stype \<noteq> City" by (simp add: st)
  from assms have "bind_err (randint 10 (max 20 (years g div 2)) r2) (\<lambda>(fy, r3).
             bind_err (pop_estimate stype r3) (\<lambda>(pop, r4).
               Inr (g\<lparr>settlements := AList.update (settlement_key c)
                         \<lparr>s_id = settlement_key c, s_name = name, s_type = stype,
                          s_tile = (tile_x (tiles g ! t), tile_y (tiles g ! t)),
                          s_realm_id = rid, s_founded_year = fy, population = pop,
                          s_tags = tags_of stype (tiles g ! t), history = []\<rparr>
                         (settlements g),
                      rng := r4,
                      tiles := set_settlement (Some (settlement_key c)) t (tiles g)\<rparr>))) = Inr g'"
    unfolding new_settlement_def 1 prod.case Let_def st [symmetric] 2 .
  then obtain fy r3 pop r4 where
    g': "g' = g\<lparr>settlements := AList.update (settlement_key c)
                 \<lparr>s_id = settlement_key c, s_name = name, s_type = stype,
                  s_tile = (tile_x (tiles g ! t), tile_y (tiles g ! t)),
                  s_realm_id = rid, s_founded_year = fy, population = pop,
                  s_tags = tags_of stype (tiles g ! t), history = []\<rparr> (settlements g),
               rng := r4,
               tiles := set_settlement (Some (settlement_key c)) t (tiles g)\<rparr>"
    by (auto simp: bind_err_Inr)
  show ?thesis
    apply (rule exI [of _ "\<lparr>s_id = settlement_key c, s_name = name, s_type = stype,
                  s_tile = (tile_x (tiles g ! t), tile_y (tiles g ! t)),
                  s_realm_id = rid, s_founded_year = fy, population = pop,
                  s_tags = tags_of stype (tiles g ! t), history = []\<rparr>"])
    apply (rule exI [of _ r4])
    apply (simp add: g' coords_def nc)
    done
qed

lemma found_capital_shape:
  assumes "found_capital rid realm_tiles c g = Inr g'"
  shows "\<exists>s realm r cap.
           map_of (realms g) rid = Some realm
         \<and> g' = g\<lparr>settlements := AList.update (settlement_key c) s (settlements g),
                   realms := AList.update rid
                     (realm\<lparr>capital_settlement_id := Some (settlement_key c)\<rparr>) (realms g),
                   rng := r,
                   tiles := set_settlement (Some (settlement_key c)) cap (tiles g)\<rparr>
         \<and> cap = most_central_tile g
                   (if filter (\<lambda>i. \<not> water (tiles g ! i) \<and> fertile_biome (biome (tiles g ! i)))
                         realm_tiles = [] then realm_tiles
                    else filter (\<lambda>i. \<not> water (tiles g ! i) \<and> fertile_biome (biome (tiles g ! i)))
                           realm_tiles)
         \<and> s_id s = settlement_key c \<and> s_realm_id s = rid
         \<and> s_tile s = coords (tiles g ! cap) \<and> s_type s = City"
proof -
  obtain name r1 where 1: "settlement_namer g ''capital'' (rng g) = (name, r1)"
    by (cases "settlement_namer g ''capital'' (rng g)")
  let ?cap = "most_central_tile g
                   (if filter (\<lambda>i. \<not> water (tiles g ! i) \<and> fertile_biome (biome (tiles g ! i)))
                         realm_tiles = [] then realm_tiles
                    else filter (\<lambda>i. \<not> water (tiles g ! i) \<and> fertile_biome (biome (tiles g ! i)))
                           realm_tiles)"
  from assms have eq: "bind_err (pop_estimate City r1) (\<lambda>(pop, r2).
           case map_of (realms g) rid of
             None \<Rightarrow> Inl KeyError
           | Some realm \<Rightarrow>
               Inr (g\<lparr>settlements := AList.update (settlement_key c)
                         \<lparr>s_id = settlement_key c, s_name = name, s_type = City,
                          s_tile = (tile_x (tiles g ! ?cap), tile_y (tiles g ! ?cap)),
                          s_realm_id = rid, s_founded_year = 0, population = pop,
                          s_tags = [''capital''],
                          history = [''Founded as the seat of '' @ realm_name realm @ ''.'']\<rparr>
                         (settlements g),
                      realms := AList.update rid
                        (realm\<lparr>capital_settlement_id := Some (settlement_key c)\<rparr>) (realms g),
                      rng := r2,
                      tiles := set_settlement (Some (settlement_key c)) ?cap (tiles g)\<rparr>)) = Inr g'"
    unfolding found_capital_def Let_def 1 prod.case .
  then obtain pop r2 realm where
    m: "map_of (realms g) rid = Some realm"
    and g': "g' = g\<lparr>settlements := AList.update (settlement_key c)
                         \<lparr>s_id = settlement_key c, s_name = name, s_type = City,
                          s_tile = (tile_x (tiles g ! ?cap), tile_y (tiles g ! ?cap)),
                          s_realm_id = rid, s_founded_year = 0, population = pop,
                          s_tags = [''capital''],
                          history = [''Founded as the seat of '' @ realm_name realm @ ''.'']\<rparr>
                         (settlements g),
                      realms := AList.update rid
                        (realm\<lparr>capital_settlement_id := Some (settlement_key c)\<rparr>) (realms g),
                      rng := r2,
                      tiles := set_settlement (Some (settlement_key c)) ?cap (tiles g)\<rparr>"
    by (auto simp: bind_err_Inr split: option.splits)
  show ?thesis
    apply (rule exI [of _ "\<lparr>s_id = settlement_key c, s_name = name, s_type = City,
                          s_tile = (tile_x (tiles g ! ?cap), tile_y (tiles g ! ?cap)),
                          s_realm_id = rid, s_founded_year = 0, population = pop,
                          s_tags = [''capital''],
                          history = [''Founded as the seat of '' @ realm_name realm @ ''.'']\<rparr>"])
    apply (rule exI [of _ realm])
    apply (rule exI [of _ r2])
    apply (rule exI [of _ ?cap])
    apply (simp add: g' m coords_def)
    done
qed

lemma new_settlement_same_land: "new_settlement rid t c g = Inr g' \<Longrightarrow> same_land g g'"
  by (drule new_settlement_shape)
     (auto simp: same_land_def same_inputs_def land_view_set_settlement)

lemma found_capital_same_land: "found_capital rid rt c g = Inr g' \<Longrightarrow> same_land g g'"
  by (drule found_capital_shape)
     (auto simp: same_land_def same_inputs_def land_view_set_settlement)

lemma same_land_rng: "same_land g g' \<Longrightarrow> same_land g (g'\<lparr>rng := r\<rparr>)"
  by (simp add: same_land_def same_inputs_def)

lemma place_settlements_same_land:
  "place_settlements rid extra ts (g, c, p) = Inr (g', c', p') \<Longrightarrow> same_land g g'"
proof (induction ts arbitrary: g c p)
  case Nil
  then show ?case by (simp add: same_land_refl)
next
  case (Cons t ts)
  show ?case
  proof (cases "p \<ge> extra")
    case True
    with Cons.prems show ?thesis by (simp add: same_land_refl)
  next
    case False
    show ?thesis
    proof (cases "truthy (settlement_id (tiles g ! t)) \<or> water (tiles g ! t)
                  \<or> score (tiles g ! t) = 0")
      case True
      with False Cons.prems have "place_settlements rid extra ts (g, c, p) = Inr (g', c', p')"
        by (auto split: if_splits)
      then show ?thesis by (rule Cons.IH)
    next
      case skip: False
      with False Cons.prems obtain g1 where
        n: "new_settlement rid t c g = Inr g1"
        and r: "place_settlements rid extra ts (g1, c + 1, p + 1) = Inr (g', c', p')"
        by (auto split: sum.splits)
      from new_settlement_same_land [OF n] Cons.IH [OF r] show ?thesis
        by (rule same_land_trans)
    qed
  qed
qed

lemma settle_realm_same_land:
  assumes "settle_realm item (g, c) = Inr (g', c')"
  shows "same_land g g'"
proof (cases item)
  case (Pair rid rt)
  show ?thesis
  proof (cases "rt = []")
    case True
    with assms Pair show ?thesis by (simp add: settle_realm_def same_land_refl)
  next
    case False
    with assms Pair obtain g1 where fc: "found_capital rid rt c g = Inr g1"
      and rest: "(case shuffle rt (rng g1) of (shuffled, r3) \<Rightarrow>
                   bind_err (place_settlements rid (min 3 (max 1 (length rt div 80))) shuffled
                               (g1\<lparr>rng := r3\<rparr>, c + 1, 0))
                     (\<lambda>(g2, sid_counter', placed). Inr (g2, sid_counter'))) = Inr (g', c')"
      by (auto simp: settle_realm_def bind_err_Inr Let_def)
    obtain sh r3 where sh: "shuffle rt (rng g1) = (sh, r3)" by (cases "shuffle rt (rng g1)")
    with rest obtain p' where
      ps: "place_settlements rid (min 3 (max 1 (length rt div 80))) sh (g1\<lparr>rng := r3\<rparr>, c + 1, 0)
           = Inr (g', c', p')"
      by (auto simp: bind_err_Inr)
    have "same_land g (g1\<lparr>rng := r3\<rparr>)"
      using found_capital_same_land [OF fc] by (rule same_land_rng)
    with place_settlements_same_land [OF ps] show ?thesis
      using same_land_trans by blast
  qed
qed

lemma derive_settlements_same_land:
  assumes "derive_settlements g = Inr g'"
  shows "same_land g g'"
proof -
  from assms obtain c where fe: "for_each settle_realm (tiles_by_realm g) (g, 1) = Inr (g', c)"
    by (auto simp: derive_settlements_def bind_err_Inr)
  have "same_land g (fst (g', c))"
  proof (rule for_each_invariant [OF fe, where P = "\<lambda>s. same_land g (fst s)"])
    show "same_land g (fst (g, 1::nat))" by (simp add: same_land_refl)
  next
    fix x and a b :: "gen \<times> nat"
    assume "same_land g (fst a)" and "settle_realm x a = Inr b"
    then show "same_land g (fst b)"
      using settle_realm_same_land [of x "fst a" "snd a" "fst b" "snd b"] same_land_trans
      by auto
  qed
  then show ?thesis by simp
qed

lemma derive_roads_shape: "derive_roads g = Some g' \<Longrightarrow> \<exists>rs. g' = g\<lparr>roads := rs\<rparr>"
  by (auto simp: derive_roads_def split: option.splits)

lemma add_ruin_shape: "add_ruin bt i g = Inr g' \<Longrightarrow> \<exists>rs r. g' = g\<lparr>ruins := rs, rng := r\<rparr>"
  by (auto simp: add_ruin_def Let_def bind_err_Inr split: prod.splits)

lemma derive_ruins_shape:
  assumes "derive_ruins g = Inr g'"
  shows "\<exists>rs r. g' = g\<lparr>ruins := rs, rng := r\<rparr>"
proof -
  obtain bt r' where sh: "shuffle (ruin_candidates g) (rng g) = (bt, r')"
    by (cases "shuffle (ruin_candidates g) (rng g)")
  with assms have fe:
    "for_each (add_ruin bt) [0..<min 5 (length bt div 30)] (g\<lparr>rng := r'\<rparr>) = Inr g'"
    by (simp add: derive_ruins_def Let_def)
  show ?thesis
  proof (rule for_each_invariant [OF fe, where P = "\<lambda>h. \<exists>rs r. h = g\<lparr>ruins := rs, rng := r\<rparr>"])
    show "\<exists>rs r. g\<lparr>rng := r'\<rparr> = g\<lparr>ruins := rs, rng := r\<rparr>"
      by (rule exI [of _ "ruins g"], rule exI [of _ r']) simp
  next
    fix x a b
    assume "\<exists>rs r. a = g\<lparr>ruins := rs, rng := r\<rparr>" and "add_ruin bt x a = Inr b"
    then obtain rs r rs' r2 where "a = g\<lparr>ruins := rs, rng := r\<rparr>" "b = a\<lparr>ruins := rs', rng := r2\<rparr>"
      using add_ruin_shape by blast
    then have "b = g\<lparr>ruins := rs', rng := r2\<rparr>" by simp
    then show "\<exists>rs r. b = g\<lparr>ruins := rs, rng := r\<rparr>" by blast
  qed
qed

subsection \<open>Spawning the realms\<close>

lemma found_realm_shape:
  "\<exists>realm r. found_realm rid index i g
      = Inr (g\<lparr>realms := AList.update rid realm (realms g), rng := r,
               tiles := set_realm (Some rid) i (tiles g)\<rparr>)
    \<and> realm_ident realm = rid \<and> capital_settlement_id realm = None"
proof -
  obtain name r1 where 1: "make_realm_name index (rng g) = Inr (name, r1)"
    using make_realm_name_ok by blast
  obtain col r2 where 2: "random_color r1 = Inr (col, r2)"
    using random_color_ok by blast
  show ?thesis
    unfolding found_realm_def 1 2 bind_err_def sum.case prod.case
    by (intro exI conjI) (rule refl, simp_all)
qed

lemma owned_set_realm:
  "owned (g\<lparr>realms := rs, rng := r, tiles := set_realm (Some rid) i (tiles g)\<rparr>)
   = owned g \<union> (if i < length (tiles g) then {i} else {})"
  by (auto simp: owned_def set_realm_def nth_list_update)

lemma coords_set_realm: "coords (set_realm v i ts ! j) = coords (ts ! j)"
proof (cases "i < length ts")
  case True
  then show ?thesis by (cases "i = j") (simp_all add: set_realm_def coords_def)
next
  case False
  then have "ts[i := (ts ! i)\<lparr>realm_id := v\<rparr>] = ts" by (intro list_update_beyond) simp
  then show ?thesis by (simp add: set_realm_def)
qed

lemma too_close_iff:
  "too_close x y used \<longleftrightarrow> (\<exists>u \<in> set used. manhattan (x, y) u < 6)"
  by (force simp: too_close_def list_ex_iff manhattan_def)

lemma manhattan_sym: "manhattan p q = manhattan q p"
  by (simp add: manhattan_def abs_minus_commute)

lemma length_update_le: "length (AList.update k v al) \<le> Suc (length al)"
  by (induction al) auto

lemma update_not_Nil: "AList.update k v al \<noteq> []"
  by (cases al) auto

lemma spawn_loop_spec:
  assumes "\<forall>i \<in> owned g. coords (tiles g ! i) \<in> set used"
    and "far_apart g"
    and "owned g \<noteq> {} \<longrightarrow> realms g \<noteq> []"
  shows "\<exists>g'. spawn_loop target fertile is used g = Inr g' \<and> far_apart g'
             \<and> owned g' \<subseteq> owned g \<union> {fertile ! i | i. i \<in> set is \<and> i < length fertile}
             \<and> length (realms g') \<le> max (length (realms g)) target
             \<and> (owned g' \<noteq> {} \<longrightarrow> realms g' \<noteq> [])
             \<and> length (tiles g') = length (tiles g)"
  using assms
proof (induction "is" arbitrary: used g)
  case Nil
  then show ?case by simp
next
  case (Cons i "is")
  show ?case
  proof (cases "length (realms g) \<ge> target \<or> i \<ge> length fertile")
    case True
    with Cons.prems show ?thesis by auto
  next
    case False
    then have lt: "length (realms g) < target" and i: "i < length fertile" by auto
    let ?t = "fertile ! i"
    let ?x = "tile_x (tiles g ! ?t)" and ?y = "tile_y (tiles g ! ?t)"
    show ?thesis
    proof (cases "too_close ?x ?y used")
      case True
      from Cons.IH [OF Cons.prems] obtain g' where
        g': "spawn_loop target fertile is used g = Inr g'" "far_apart g'"
        "owned g' \<subseteq> owned g \<union> {fertile ! i | i. i \<in> set is \<and> i < length fertile}"
        "length (realms g') \<le> max (length (realms g)) target"
        "owned g' \<noteq> {} \<longrightarrow> realms g' \<noteq> []" "length (tiles g') = length (tiles g)"
        by blast
      have "spawn_loop target fertile (i # is) used g = Inr g'"
        using lt i True g'(1) by (simp add: Let_def)
      with g'(2-6) show ?thesis by auto
    next
      case far: False
      let ?rid = "realm_key (length (realms g) + 1)"
      obtain realm r where fr: "found_realm ?rid (length (realms g)) ?t g
          = Inr (g\<lparr>realms := AList.update ?rid realm (realms g), rng := r,
                   tiles := set_realm (Some ?rid) ?t (tiles g)\<rparr>)"
        using found_realm_shape by blast
      let ?g1 = "g\<lparr>realms := AList.update ?rid realm (realms g), rng := r,
                   tiles := set_realm (Some ?rid) ?t (tiles g)\<rparr>"
      let ?used = "used @ [(?x, ?y)]"
      have ow: "owned ?g1 = owned g \<union> (if ?t < length (tiles g) then {?t} else {})"
        by (rule owned_set_realm)
      have co: "\<And>j. coords (tiles ?g1 ! j) = coords (tiles g ! j)"
        by (simp add: coords_set_realm)
      have xy: "(?x, ?y) = coords (tiles g ! ?t)"
        by (simp add: coords_def)
      have a1: "\<forall>j \<in> owned ?g1. coords (tiles ?g1 ! j) \<in> set ?used"
      proof
        fix j assume "j \<in> owned ?g1"
        then have "j \<in> owned g \<or> j = ?t" by (auto simp: owned_set_realm split: if_splits)
        then have "coords (tiles g ! j) \<in> set ?used"
          using Cons.prems(1) xy by auto
        then show "coords (tiles ?g1 ! j) \<in> set ?used" by (simp add: coords_set_realm)
      qed
      have nf: "\<And>j. j \<in> owned g \<Longrightarrow> 6 \<le> manhattan (?x, ?y) (coords (tiles g ! j))"
        using far Cons.prems(1) by (fastforce simp: too_close_iff)
      have a2: "far_apart ?g1"
        unfolding far_apart_def
      proof (intro ballI impI)
        fix a b assume a: "a \<in> owned ?g1" and b: "b \<in> owned ?g1" and ne: "a \<noteq> b"
        consider "a \<in> owned g" "b \<in> owned g" | "a = ?t" "b \<in> owned g" | "b = ?t" "a \<in> owned g"
          using a b ne by (auto simp: owned_set_realm split: if_splits)
        then show "6 \<le> manhattan (coords (tiles ?g1 ! a)) (coords (tiles ?g1 ! b))"
        proof cases
          case 1
          then show ?thesis using Cons.prems(2) ne by (simp add: far_apart_def coords_set_realm)
        next
          case 2
          then show ?thesis using nf [of b] by (simp add: coords_set_realm xy [symmetric])
        next
          case 3
          then show ?thesis using nf [of a] by (simp add: coords_set_realm xy [symmetric] manhattan_sym [of "coords (tiles g ! a)"])
        qed
      qed
      have a3: "owned ?g1 \<noteq> {} \<longrightarrow> realms ?g1 \<noteq> []"
        by (simp add: update_not_Nil)
      from Cons.IH [OF a1 a2 a3] obtain g' where
        g': "spawn_loop target fertile is ?used ?g1 = Inr g'" "far_apart g'"
        "owned g' \<subseteq> owned ?g1 \<union> {fertile ! i | i. i \<in> set is \<and> i < length fertile}"
        "length (realms g') \<le> max (length (realms ?g1)) target"
        "owned g' \<noteq> {} \<longrightarrow> realms g' \<noteq> []" "length (tiles g') = length (tiles ?g1)"
        by blast
      have run: "spawn_loop target fertile (i # is) used g = Inr g'"
        using lt i far fr g'(1) by (simp add: Let_def)
      have len: "length (realms g') \<le> max (length (realms g)) target"
        using g'(4) lt length_update_le [of ?rid realm "realms g"] by simp
      have sub: "owned g' \<subseteq> owned g \<union> {fertile ! k | k. k \<in> set (i # is) \<and> k < length fertile}"
        using g'(3) i by (auto simp: owned_set_realm split: if_splits)
      from run g'(2) sub len g'(5) g'(6) show ?thesis
        by (simp add: set_realm_def)
    qed
  qed
qed

lemma nth_in_take: "i < n \<Longrightarrow> i < length xs \<Longrightarrow> xs ! i \<in> set (take n xs)"
proof -
  assume a: "i < n" "i < length xs"
  then have "take n xs ! i = xs ! i" "i < length (take n xs)" by simp_all
  then show ?thesis by (metis nth_mem)
qed

lemma owned_empty: "(\<forall>t \<in> set (tiles g). realm_id t = None) \<Longrightarrow> owned g = {}"
  by (auto simp: owned_def)

text \<open>
  Claim C7. From a grid on which no tile is owned and with no realm yet,
  \<^verbatim>\<open>_spawn_initial_realms\<close> returns (it raises nothing), and afterwards: any two
  distinct owned tiles, the seeds, are at Manhattan distance 6 or more; there are at most
  \<open>clamp(area / 1200, 2, 6)\<close> realms; every seed is among the first \<open>2 \<times> target\<close>
  entries of the shuffled pool of fertile tiles, the only ones tried; and when a fertile
  tile exists there is a realm.
\<close>

theorem spawn_initial_realms_spec:
  assumes "\<forall>t \<in> set (tiles g). realm_id t = None" and "realms g = []"
  shows "\<exists>g'. spawn_initial_realms g = Inr g'
             \<and> far_apart g'
             \<and> length (realms g') \<le> clamp 2 6 ((width g * height g) div 1200)
             \<and> owned g' \<subseteq> set (take (2 * clamp 2 6 ((width g * height g) div 1200))
                                   (fst (shuffle (fertile_tiles g) (rng g))))
             \<and> (fertile_tiles g \<noteq> [] \<longrightarrow> realms g' \<noteq> [])"
proof -
  let ?target = "max 2 (min 6 ((width g * height g) div 1200))"
  obtain fertile r' where sh: "shuffle (fertile_tiles g) (rng g) = (fertile, r')"
    by (cases "shuffle (fertile_tiles g) (rng g)")
  let ?g0 = "g\<lparr>rng := r'\<rparr>"
  have o0: "owned ?g0 = {}"
    using owned_empty [OF assms(1)] by (simp add: owned_def)
  have "\<exists>g'. spawn_loop ?target fertile [0..<?target * 2] [] ?g0 = Inr g' \<and> far_apart g'
             \<and> owned g' \<subseteq> owned ?g0 \<union> {fertile ! i | i. i \<in> set [0..<?target * 2] \<and> i < length fertile}
             \<and> length (realms g') \<le> max (length (realms ?g0)) ?target
             \<and> (owned g' \<noteq> {} \<longrightarrow> realms g' \<noteq> [])
             \<and> length (tiles g') = length (tiles ?g0)"
    by (rule spawn_loop_spec) (simp_all add: o0 far_apart_def)
  then obtain g1 where
    l: "spawn_loop ?target fertile [0..<?target * 2] [] ?g0 = Inr g1"
    and f1: "far_apart g1"
    and s1: "owned g1 \<subseteq> {fertile ! i | i. i < ?target * 2 \<and> i < length fertile}"
    and n1: "length (realms g1) \<le> ?target"
    and e1: "owned g1 \<noteq> {} \<longrightarrow> realms g1 \<noteq> []"
    using o0 assms(2) by auto
  have tk: "{fertile ! i | i. i < ?target * 2 \<and> i < length fertile}
            \<subseteq> set (take (2 * ?target) fertile)"
    using nth_in_take [of _ "2 * ?target" fertile] by (auto simp: mult.commute)
  show ?thesis
  proof (cases "realms g1 = [] \<and> fertile \<noteq> []")
    case False
    then have run: "spawn_initial_realms g = Inr g1"
      using sh l by (auto simp: spawn_initial_realms_def Let_def bind_err_def)
    have "fertile_tiles g \<noteq> [] \<longrightarrow> realms g1 \<noteq> []"
      using False shuffle_length [OF sh] by auto
    with run f1 s1 tk n1 sh show ?thesis
      by (auto simp: clamp_def)
  next
    case True
    obtain realm r where fr: "found_realm ''realm_1'' 0 (fertile ! 0) g1
        = Inr (g1\<lparr>realms := AList.update ''realm_1'' realm (realms g1), rng := r,
                  tiles := set_realm (Some ''realm_1'') (fertile ! 0) (tiles g1)\<rparr>)"
      using found_realm_shape by blast
    let ?g2 = "g1\<lparr>realms := AList.update ''realm_1'' realm (realms g1), rng := r,
                  tiles := set_realm (Some ''realm_1'') (fertile ! 0) (tiles g1)\<rparr>"
    have run: "spawn_initial_realms g = Inr ?g2"
      using sh l True fr by (simp add: spawn_initial_realms_def Let_def bind_err_def)
    have og1: "owned g1 = {}" using e1 True by auto
    have o2: "owned ?g2 \<subseteq> {fertile ! 0}"
      by (simp add: owned_set_realm og1)
    have f2: "far_apart ?g2"
      unfolding far_apart_def using o2 by blast
    have "fertile ! 0 \<in> set (take (2 * ?target) fertile)"
      using True by (intro nth_in_take) auto
    with o2 have s2: "owned ?g2 \<subseteq> set (take (2 * ?target) fertile)" by blast
    have n2: "length (realms ?g2) \<le> ?target"
      using True by simp
    have "realms ?g2 \<noteq> []" by (simp add: update_not_Nil)
    with run f2 s2 n2 sh show ?thesis
      by (auto simp: clamp_def)
  qed
qed

theorem spawn_initial_realms_spec_witness:
  "\<exists>g'. spawn_initial_realms meadow = Inr g'
        \<and> far_apart g'
        \<and> length (realms g') \<le> clamp 2 6 ((width meadow * height meadow) div 1200)
        \<and> owned g' \<subseteq> set (take (2 * clamp 2 6 ((width meadow * height meadow) div 1200))
                              (fst (shuffle (fertile_tiles meadow) (rng meadow))))
        \<and> realms g' \<noteq> []"
proof -
  have a: "\<forall>t \<in> set (tiles meadow). realm_id t = None"
    by (auto simp: meadow_def grass_def)
  have b: "realms meadow = []"
    by (simp add: meadow_def)
  have "0 \<in> set (fertile_tiles meadow)"
    by (simp add: fertile_tiles_def meadow_def grass_def fertile_biome_def nth_append)
  then have c: "fertile_tiles meadow \<noteq> []"
    by auto
  from spawn_initial_realms_spec [OF a b] c show ?thesis by blast
qed

subsection \<open>Ownership\<close>

subsection \<open>The table of tiles by realm\<close>

lemma tiles_by_realm_foldl: "tiles_by_realm g = foldl (tbr_step g) [] [0..<length (tiles g)]"
  unfolding tiles_by_realm_def tbr_step_def ..

lemma tbr_prefix:
  "distinct (map fst (foldl (tbr_step g) [] [0..<k])) \<and>
   (\<forall>rid. map_of (foldl (tbr_step g) [] [0..<k]) rid
          = (if rid \<noteq> [] \<and> held g rid k \<noteq> [] then Some (held g rid k) else None))"
proof (induction k)
  case 0
  show ?case by (simp add: held_def)
next
  case (Suc k)
  let ?m = "foldl (tbr_step g) [] [0..<k]"
  have m: "foldl (tbr_step g) [] [0..<Suc k] = tbr_step g ?m k" by simp
  have d: "distinct (map fst ?m)" using Suc.IH by blast
  have mo: "\<And>rid. map_of ?m rid
          = (if rid \<noteq> [] \<and> held g rid k \<noteq> [] then Some (held g rid k) else None)"
    using Suc.IH by blast
  have hs: "\<And>rid. held g rid (Suc k)
      = held g rid k @ (if realm_id (tiles g ! k) = Some rid then [k] else [])"
    by (simp add: held_def)
  show ?case
  proof (cases "realm_id (tiles g ! k)")
    case None
    then have "tbr_step g ?m k = ?m" by (simp add: tbr_step_def)
    with m d mo None hs show ?thesis by simp
  next
    case (Some r)
    show ?thesis
    proof (cases "r = []")
      case True
      with Some have "tbr_step g ?m k = ?m" by (simp add: tbr_step_def)
      with m d mo Some hs True show ?thesis by auto
    next
      case False
      let ?l = "(case map_of ?m r of None \<Rightarrow> [] | Some l \<Rightarrow> l) @ [k]"
      have st: "tbr_step g ?m k = AList.update r ?l ?m"
        using Some False by (simp add: tbr_step_def)
      have l: "?l = held g r (Suc k)"
        using mo [of r] False Some by (auto simp: hs)
      have d': "distinct (map fst (AList.update r ?l ?m))"
        using d by (rule distinct_update)
      have "\<And>rid. map_of (AList.update r ?l ?m) rid
          = (if rid \<noteq> [] \<and> held g rid (Suc k) \<noteq> [] then Some (held g rid (Suc k)) else None)"
        using mo Some False by (auto simp: update_conv' l hs)
      with d' show ?thesis unfolding m st by blast
    qed
  qed
qed

lemma tiles_by_realm_distinct: "distinct (map fst (tiles_by_realm g))"
  using tbr_prefix [of g "length (tiles g)"] by (simp add: tiles_by_realm_foldl)

lemma tiles_by_realm_map_of:
  "map_of (tiles_by_realm g) rid
   = (if rid \<noteq> [] \<and> tiles_of_realm g rid \<noteq> [] then Some (tiles_of_realm g rid) else None)"
  using tbr_prefix [of g "length (tiles g)"]
  by (simp add: tiles_by_realm_foldl held_def tiles_of_realm_def)

lemma tiles_by_realm_entry:
  assumes "(rid, l) \<in> set (tiles_by_realm g)"
  shows "rid \<noteq> [] \<and> l \<noteq> [] \<and> l = tiles_of_realm g rid"
proof -
  have "map_of (tiles_by_realm g) rid = Some l"
    using assms tiles_by_realm_distinct by simp
  then show ?thesis
    by (auto simp: tiles_by_realm_map_of split: if_splits)
qed

lemma tiles_of_realm_mem:
  "i \<in> set (tiles_of_realm g rid) \<longleftrightarrow> i < length (tiles g) \<and> realm_id (tiles g ! i) = Some rid"
  by (auto simp: tiles_of_realm_def)

lemma land_owned_nth:
  "land_owned ts \<longleftrightarrow> (\<forall>i < length ts. realm_id (ts ! i) \<noteq> None \<longrightarrow> is_land (ts ! i))"
  by (simp add: land_owned_def all_set_conv_all_nth)

lemma is_land_terrain: "terrain t = terrain t' \<Longrightarrow> is_land t = is_land t'"
  by (simp add: terrain_def is_land_def)

lemma land_owned_set_realm:
  assumes "land_owned ts" and "v \<noteq> None \<Longrightarrow> i < length ts \<Longrightarrow> is_land (ts ! i)"
  shows "land_owned (set_realm v i ts)"
  unfolding land_owned_nth
proof (intro allI impI)
  fix j assume j: "j < length (set_realm v i ts)"
    and o: "realm_id (set_realm v i ts ! j) \<noteq> None"
  have len: "j < length ts" using j by (simp add: set_realm_def)
  show "is_land (set_realm v i ts ! j)"
  proof (cases "j = i")
    case True
    with len o have "v \<noteq> None" by (simp add: set_realm_def)
    with assms(2) len True show ?thesis by (simp add: set_realm_def is_land_def)
  next
    case False
    with len o assms(1) show ?thesis by (simp add: set_realm_def land_owned_nth)
  qed
qed

lemma length_set_realm: "length (set_realm v i ts) = length ts"
  by (simp add: set_realm_def)

lemma is_land_set_realm: "j < length ts \<Longrightarrow> is_land (set_realm v i ts ! j) = is_land (ts ! j)"
  by (cases "j = i") (simp_all add: set_realm_def is_land_def)

lemma land_owned_set_realms:
  assumes "land_owned ts" and "v \<noteq> None \<Longrightarrow> \<forall>i \<in> set is. i < length ts \<longrightarrow> is_land (ts ! i)"
  shows "land_owned (foldl (\<lambda>tl i. set_realm v i tl) ts is)"
  using assms
proof (induction "is" arbitrary: ts)
  case Nil
  then show ?case by simp
next
  case (Cons i "is")
  have 1: "land_owned (set_realm v i ts)"
    using Cons.prems by (intro land_owned_set_realm) auto
  have 2: "v \<noteq> None \<Longrightarrow> \<forall>j \<in> set is. j < length (set_realm v i ts)
              \<longrightarrow> is_land (set_realm v i ts ! j)"
    using Cons.prems(2) by (auto simp: is_land_set_realm length_set_realm)
  from Cons.IH [OF 1 2] show ?case by simp
qed

subsection \<open>Spawning\<close>

lemma owned_land_found_realm:
  assumes "owned_land g" and "i < length (tiles g) \<Longrightarrow> is_land (tiles g ! i)"
    and "found_realm rid index i g = Inr g'"
  shows "owned_land g'"
proof -
  obtain realm r where "found_realm rid index i g
      = Inr (g\<lparr>realms := AList.update rid realm (realms g), rng := r,
               tiles := set_realm (Some rid) i (tiles g)\<rparr>)"
    using found_realm_shape by blast
  with assms(3) have "tiles g' = set_realm (Some rid) i (tiles g)" by auto
  with assms(1,2) show ?thesis
    by (simp add: owned_land_def land_owned_set_realm)
qed

lemma is_land_same_terrain:
  assumes "same_terrain g g'" and "i < length (tiles g)"
  shows "is_land (tiles g' ! i) = is_land (tiles g ! i)"
proof -
  from assms(1) have m: "map terrain (tiles g') = map terrain (tiles g)"
    by (simp add: same_terrain_def)
  then have "length (tiles g') = length (tiles g)" by (metis length_map)
  with m assms(2) have "terrain (tiles g' ! i) = terrain (tiles g ! i)"
    by (metis nth_map)
  then show ?thesis by (rule is_land_terrain)
qed

lemma same_terrain_length: "same_terrain g g' \<Longrightarrow> length (tiles g') = length (tiles g)"
  unfolding same_terrain_def by (metis length_map)

lemma spawn_loop_owned_land:
  assumes "spawn_loop target fertile is used g = Inr g'" and "owned_land g"
    and "\<forall>k \<in> set fertile. k < length (tiles g) \<longrightarrow> is_land (tiles g ! k)"
  shows "owned_land g'"
  using assms
proof (induction "is" arbitrary: used g)
  case Nil
  then show ?case by simp
next
  case (Cons i "is")
  show ?case
  proof (cases "length (realms g) \<ge> target \<or> i \<ge> length fertile")
    case True
    with Cons.prems show ?thesis by (auto split: if_splits)
  next
    case False
    let ?t = "fertile ! i"
    show ?thesis
    proof (cases "too_close (tile_x (tiles g ! ?t)) (tile_y (tiles g ! ?t)) used")
      case True
      with False Cons.prems(1) have "spawn_loop target fertile is used g = Inr g'"
        by (simp add: Let_def)
      from Cons.IH [OF this Cons.prems(2,3)] show ?thesis .
    next
      case far: False
      with False Cons.prems(1) obtain g1 where
        fr: "found_realm (realm_key (length (realms g) + 1)) (length (realms g)) ?t g = Inr g1"
        and rest: "spawn_loop target fertile is
                     (used @ [(tile_x (tiles g ! ?t), tile_y (tiles g ! ?t))]) g1 = Inr g'"
        by (auto simp: Let_def split: sum.splits)
      have mem: "?t \<in> set fertile" using False by simp
      have o1: "owned_land g1"
        using Cons.prems(2) _ fr
      proof (rule owned_land_found_realm)
        assume "?t < length (tiles g)"
        with Cons.prems(3) mem show "is_land (tiles g ! ?t)" by blast
      qed
      have st: "same_terrain g g1" using fr by (rule found_realm_same_terrain)
      have f1: "\<forall>k \<in> set fertile. k < length (tiles g1) \<longrightarrow> is_land (tiles g1 ! k)"
        using Cons.prems(3) is_land_same_terrain [OF st] same_terrain_length [OF st] by auto
      from Cons.IH [OF rest o1 f1] show ?thesis .
    qed
  qed
qed

lemma fertile_is_land: "k \<in> set (fertile_tiles g) \<Longrightarrow> is_land (tiles g ! k)"
  by (auto simp: fertile_tiles_def is_land_def fertile_biome_def)

lemma spawn_initial_realms_owned_land:
  assumes "spawn_initial_realms g = Inr g'" and "owned_land g"
  shows "owned_land g'"
proof -
  let ?target = "max 2 (min 6 ((width g * height g) div 1200))"
  obtain fertile r' where sh: "shuffle (fertile_tiles g) (rng g) = (fertile, r')"
    by (cases "shuffle (fertile_tiles g) (rng g)")
  from assms(1) sh obtain g1 where
    l: "spawn_loop ?target fertile [0..<?target * 2] [] (g\<lparr>rng := r'\<rparr>) = Inr g1"
    and f: "(if realms g1 = [] \<and> fertile \<noteq> [] then found_realm ''realm_1'' 0 (fertile ! 0) g1
             else Inr g1) = Inr g'"
    by (auto simp: spawn_initial_realms_def Let_def bind_err_Inr)
  have fs: "set fertile = set (fertile_tiles g)"
    using sh by (rule shuffle_set)
  have fl: "\<forall>k \<in> set fertile. is_land (tiles g ! k)"
    unfolding fs by (simp add: fertile_is_land)
  have o1: "owned_land g1"
    using l by (rule spawn_loop_owned_land) (use assms(2) fl in \<open>auto simp: owned_land_def\<close>)
  have st: "same_terrain (g\<lparr>rng := r'\<rparr>) g1" using l by (rule spawn_loop_same_terrain)
  show ?thesis
  proof (cases "realms g1 = [] \<and> fertile \<noteq> []")
    case False
    with f o1 show ?thesis by auto
  next
    case True
    with f have fr: "found_realm ''realm_1'' 0 (fertile ! 0) g1 = Inr g'" by simp
    have "fertile ! 0 \<in> set fertile" using True by simp
    then have "is_land (tiles g ! (fertile ! 0))" using fl by blast
    moreover have "fertile ! 0 < length (tiles g)"
      using \<open>fertile ! 0 \<in> set fertile\<close> unfolding fs by (simp add: fertile_tiles_def)
    ultimately have il: "is_land (tiles g1 ! (fertile ! 0))"
      using is_land_same_terrain [OF st, of "fertile ! 0"] by simp
    show ?thesis
      using o1 il fr by (rule owned_land_found_realm [where g = g1 and g' = g'])
  qed
qed

subsection \<open>Expansion and crises\<close>

lemma annex_owned_land:
  "annex rid sz tbr ns (g, grown) = (g', grown') \<Longrightarrow> owned_land g \<Longrightarrow> owned_land g'"
proof (induction ns arbitrary: g grown)
  case Nil
  then show ?case by simp
next
  case (Cons n ns)
  have land: "\<not> (water (tiles g ! n) \<or> biome (tiles g ! n) = Mountain)
       \<Longrightarrow> land_owned (set_realm (Some rid) n (tiles g))"
    using Cons.prems(2) by (intro land_owned_set_realm) (auto simp: owned_land_def is_land_def)
  have a: "\<And>h k. owned_land h \<Longrightarrow> annex rid sz tbr ns (h, k) = (g', grown') \<Longrightarrow> owned_land g'"
    using Cons.IH by blast
  show ?case
  proof (cases "water (tiles g ! n) \<or> biome (tiles g ! n) = Mountain")
    case True
    with Cons.prems show ?thesis by (auto intro: a)
  next
    case False
    note l = land [OF False]
    show ?thesis
    proof (cases "realm_id (tiles g ! n)")
      case None
      with False Cons.prems(1) have
        "annex rid sz tbr ns (g\<lparr>tiles := set_realm (Some rid) n (tiles g)\<rparr>, grown + 1)
         = (g', grown')" by simp
      then show ?thesis by (rule a [rotated]) (simp add: owned_land_def l)
    next
      case (Some other)
      obtain u r' where rr: "rng_random (rng g) = (u, r')" by (cases "rng_random (rng g)")
      show ?thesis
      proof (cases "other \<noteq> rid \<and> u < chance sz (other_size tbr other)")
        case True
        with False Some rr Cons.prems(1) have
          "annex rid sz tbr ns (g\<lparr>rng := r', tiles := set_realm (Some rid) n (tiles g)\<rparr>,
              grown + 1) = (g', grown')" by simp
        then show ?thesis by (rule a [rotated]) (simp add: owned_land_def l)
      next
        case no: False
        show ?thesis
        proof (cases "other = rid")
          case True
          with False Some Cons.prems show ?thesis by (auto intro: a)
        next
          case ne: False
          with no False Some rr Cons.prems(1) have
            "annex rid sz tbr ns (g\<lparr>rng := r'\<rparr>, grown) = (g', grown')" by simp
          then show ?thesis
            by (rule a [rotated]) (use Cons.prems(2) in \<open>simp add: owned_land_def\<close>)
        qed
      qed
    qed
  qed
qed

lemma expand_visits_owned_land:
  "expand_visits rid sz d tbr ts (g, grown, attempts) = (g', grown', attempts')
   \<Longrightarrow> owned_land g \<Longrightarrow> owned_land g'"
proof (induction ts arbitrary: g grown attempts)
  case Nil
  then show ?case by simp
next
  case (Cons t ts)
  show ?case
  proof (cases "grown \<ge> d")
    case True
    with Cons.prems show ?thesis by simp
  next
    case False
    obtain g1 k where ann:
      "annex rid sz tbr (neighbors g (tile_x (tiles g ! t)) (tile_y (tiles g ! t))) (g, grown)
       = (g1, k)"
      by (cases "annex rid sz tbr (neighbors g (tile_x (tiles g ! t)) (tile_y (tiles g ! t)))
                   (g, grown)")
    have g1: "owned_land g1"
      using ann Cons.prems(2) by (rule annex_owned_land)
    show ?thesis
    proof (cases "attempts + 1 > d * 6")
      case True
      with False Cons.prems ann g1 show ?thesis by simp
    next
      case no: False
      with False Cons.prems(1) ann
      have "expand_visits rid sz d tbr ts (g1, k, attempts + 1) = (g', grown', attempts')"
        by simp
      from Cons.IH [OF this g1] show ?thesis .
    qed
  qed
qed

lemma empire_check_tiles: "tiles (empire_check rid sz year g) = tiles g"
  by (simp add: empire_check_def split: option.splits)

lemma realm_pass_owned_land:
  assumes "owned_land g"
  shows "owned_land (realm_pass year tbr item g)"
proof (cases item)
  case (Pair rid realm_tiles)
  show ?thesis
  proof (cases "map_of (realms g) rid")
    case None
    with Pair assms show ?thesis by (simp add: realm_pass_def)
  next
    case (Some realm)
    obtain shuffled r' where sh: "shuffle realm_tiles (rng g) = (shuffled, r')"
      by (cases "shuffle realm_tiles (rng g)")
    obtain g1 grown attempts where ev:
      "expand_visits rid (length realm_tiles) (max 1 (length realm_tiles div 12)) tbr shuffled
         (g\<lparr>rng := r'\<rparr>, 0, 0) = (g1, grown, attempts)"
      by (cases "expand_visits rid (length realm_tiles) (max 1 (length realm_tiles div 12)) tbr
                   shuffled (g\<lparr>rng := r'\<rparr>, 0, 0)")
    have "owned_land (g\<lparr>rng := r'\<rparr>)" using assms by (simp add: owned_land_def)
    with ev have "owned_land g1" by (rule expand_visits_owned_land)
    then have "owned_land (empire_check rid (length realm_tiles) year g1)"
      by (simp add: owned_land_def empire_check_tiles)
    with Pair Some sh ev show ?thesis
      by (simp add: realm_pass_def Let_def)
  qed
qed

lemma realm_expansion_tick_owned_land:
  assumes "owned_land g"
  shows "owned_land (realm_expansion_tick year g)"
proof -
  have "\<And>items. owned_land (foldl (\<lambda>g' item. realm_pass year tbr item g') g items)" for tbr
  proof -
    fix items show "owned_land (foldl (\<lambda>g' item. realm_pass year tbr item g') g items)"
      using assms by (induction items arbitrary: g) (simp_all add: realm_pass_owned_land)
  qed
  then show ?thesis by (simp add: realm_expansion_tick_def Let_def)
qed

lemma lose_territory_shape:
  assumes "lose_territory year ty rid realm ts g = Inr g'"
  shows "g' = g \<or>
         (\<exists>r js ev. g' = g\<lparr>rng := r,
                           tiles := foldl (\<lambda>tl i. set_realm None i tl) (tiles g) js,
                           events := events g @ [ev]\<rparr>
                   \<and> set js \<subseteq> set ts \<and> e_type ev = ty \<and> e_realm_ids ev = [rid])"
proof (cases "filter (is_border_tile g) ts = []")
  case True
  with assms show ?thesis by (simp add: lose_territory_def)
next
  case False
  obtain sh r1 where sh: "shuffle (filter (is_border_tile g) ts) (rng g) = (sh, r1)"
    by (cases "shuffle (filter (is_border_tile g) ts) (rng g)")
  obtain k r2 where k: "randint 6 10 r1 = Inr (k, r2)"
    using randint_ok [of 6 10 r1] by auto
  let ?js = "take (nat (max 1 (int (length ts) div k))) sh"
  let ?ev = "crisis_event ty rid year (realm_name realm @ '' lost territory to internal crisis.'')"
  have g': "g' = g\<lparr>rng := r2, tiles := foldl (\<lambda>tl i. set_realm None i tl) (tiles g) ?js,
                    events := events g @ [?ev]\<rparr>"
    using assms False sh k by (simp add: lose_territory_def Let_def bind_err_def)
  have "set ?js \<subseteq> set sh" by (rule set_take_subset)
  also have "set sh = set (filter (is_border_tile g) ts)" using sh by (rule shuffle_set)
  finally have sub: "set ?js \<subseteq> set ts" by auto
  have "e_type ?ev = ty \<and> e_realm_ids ?ev = [rid]" by (simp add: crisis_event_def)
  with g' sub show ?thesis by blast
qed

lemma civil_war_shape:
  assumes "civil_war year rid realm ts g = Inr g'"
  shows "g' = g \<or>
         (\<exists>nr r js ev. g' = g\<lparr>realms := AList.update (realm_key (length (realms g) + 1)) nr
                                          (realms g),
                              rng := r,
                              tiles := foldl (\<lambda>tl i. set_realm
                                          (Some (realm_key (length (realms g) + 1))) i tl)
                                          (tiles g) js,
                              events := events g @ [ev]\<rparr>
                   \<and> set js \<subseteq> set ts \<and> length js = length ts div 2
                   \<and> realm_ident nr = realm_key (length (realms g) + 1)
                   \<and> capital_settlement_id nr = None
                   \<and> e_type ev = CIVIL_WAR \<and> e_realm_ids ev = [rid]
                   \<and> length (realms g) \<le> 8 \<and> 12 \<le> length ts)"
proof (cases "length (realms g) > 8 \<or> length ts < 12")
  case True
  with assms show ?thesis by (simp add: civil_war_def)
next
  case False
  let ?id = "realm_key (length (realms g) + 1)"
  obtain name r1 where 1: "make_realm_name (length (realms g)) (rng g) = Inr (name, r1)"
    using make_realm_name_ok by blast
  obtain col r2 where 2: "random_color r1 = Inr (col, r2)"
    using random_color_ok by blast
  obtain sh r3 where sh: "shuffle ts r2 = (sh, r3)" by (cases "shuffle ts r2")
  let ?nr = "\<lparr>realm_ident = ?id, realm_name = name, color = col,
             capital_settlement_id = None, founded_year = year,
             dissolved_year = None, culture = culture realm,
             realm_notes = [''Splintered from '' @ realm_name realm @ '' in civil war.''],
             strength = None\<rparr>"
  let ?js = "take (length ts div 2) sh"
  let ?ev = "crisis_event CIVIL_WAR rid year
               (''Civil war split '' @ realm_name realm @ '', creating '' @ name @ ''.'')"
  have g': "g' = g\<lparr>realms := AList.update ?id ?nr (realms g), rng := r3,
                    tiles := foldl (\<lambda>tl i. set_realm (Some ?id) i tl) (tiles g) ?js,
                    events := events g @ [?ev]\<rparr>"
    using assms False 1 2 sh by (simp add: civil_war_def Let_def bind_err_def)
  have "set ?js \<subseteq> set sh" by (rule set_take_subset)
  also have "set sh = set ts" using sh by (rule shuffle_set)
  finally have sub: "set ?js \<subseteq> set ts" .
  have len: "length ?js = length ts div 2"
    using shuffle_length [OF sh] by simp
  have "realm_ident ?nr = ?id \<and> capital_settlement_id ?nr = None
        \<and> e_type ?ev = CIVIL_WAR \<and> e_realm_ids ?ev = [rid]"
    by (simp add: crisis_event_def)
  with g' sub len False show ?thesis
    by (intro disjI2 exI [of _ ?nr] exI [of _ r3] exI [of _ ?js] exI [of _ ?ev]) simp
qed

lemma random_crisis_shape:
  assumes "random_crisis year g = Inr g'"
  shows "g' = g \<or> (\<exists>r. g' = g\<lparr>rng := r\<rparr>) \<or>
         (\<exists>r rid realm ty. rid \<in> fst ` set (realms g) \<and> map_of (realms g) rid = Some realm
            \<and> tiles_of_realm g rid \<noteq> []
            \<and> (ty = PLAGUE \<or> ty = SUCCESSION)
            \<and> lose_territory year ty rid realm (tiles_of_realm g rid) (g\<lparr>rng := r\<rparr>) = Inr g') \<or>
         (\<exists>r rid realm. rid \<in> fst ` set (realms g) \<and> map_of (realms g) rid = Some realm
            \<and> tiles_of_realm g rid \<noteq> []
            \<and> civil_war year rid realm (tiles_of_realm g rid) (g\<lparr>rng := r\<rparr>) = Inr g')"
proof -
  let ?ids = "filter (\<lambda>rid. realm_tile_count g rid > 0) (map fst (realms g))"
  show ?thesis
  proof (cases "?ids = []")
    case True
    with assms show ?thesis by (simp add: random_crisis_def)
  next
    case False
    obtain rid r1 where c1: "choice ?ids (rng g) = Inr (rid, r1)" and mem: "rid \<in> set ?ids"
      using choice_ok [OF False] by blast
    have key: "rid \<in> fst ` set (realms g)" using mem by auto
    then obtain realm where m: "map_of (realms g) rid = Some realm"
      by (metis domD dom_map_of_conv_image_fst)
    show ?thesis
    proof (cases "tiles_of_realm g rid = []")
      case True
      with assms False c1 m have "g' = g\<lparr>rng := r1\<rparr>"
        by (simp add: random_crisis_def Let_def bind_err_def)
      then show ?thesis by blast
    next
      case ne: False
      obtain ty r2 where c2: "choice [PLAGUE, CIVIL_WAR, SUCCESSION] r1 = Inr (ty, r2)"
        using choice_ok [of "[PLAGUE, CIVIL_WAR, SUCCESSION]" r1] by auto
      show ?thesis
      proof (cases "ty = PLAGUE \<or> ty = SUCCESSION")
        case True
        with assms False c1 m ne c2 have
          "lose_territory year ty rid realm (tiles_of_realm g rid) (g\<lparr>rng := r2\<rparr>) = Inr g'"
          by (simp add: random_crisis_def Let_def bind_err_def)
        with key m ne True show ?thesis by blast
      next
        case no: False
        with assms False c1 m ne c2 have
          "civil_war year rid realm (tiles_of_realm g rid) (g\<lparr>rng := r2\<rparr>) = Inr g'"
          by (simp add: random_crisis_def Let_def bind_err_def)
        with key m ne show ?thesis by blast
      qed
    qed
  qed
qed

lemma lose_territory_owned_land:
  "lose_territory year ty rid realm ts g = Inr g' \<Longrightarrow> owned_land g \<Longrightarrow> owned_land g'"
  by (drule lose_territory_shape)
     (auto simp: owned_land_def intro!: land_owned_set_realms)

lemma civil_war_owned_land:
  assumes "civil_war year rid realm ts g = Inr g'" and "owned_land g"
    and "\<forall>i \<in> set ts. i < length (tiles g) \<longrightarrow> realm_id (tiles g ! i) \<noteq> None"
  shows "owned_land g'"
proof -
  have l: "\<forall>i \<in> set ts. i < length (tiles g) \<longrightarrow> is_land (tiles g ! i)"
    using assms(2,3) by (auto simp: owned_land_def land_owned_nth)
  from civil_war_shape [OF assms(1)] show ?thesis
  proof
    assume "g' = g" with assms(2) show ?thesis by simp
  next
    assume "\<exists>nr r js ev. g' = g\<lparr>realms := AList.update (realm_key (length (realms g) + 1)) nr
                                          (realms g),
                              rng := r,
                              tiles := foldl (\<lambda>tl i. set_realm
                                          (Some (realm_key (length (realms g) + 1))) i tl)
                                          (tiles g) js,
                              events := events g @ [ev]\<rparr>
                   \<and> set js \<subseteq> set ts \<and> length js = length ts div 2
                   \<and> realm_ident nr = realm_key (length (realms g) + 1)
                   \<and> capital_settlement_id nr = None
                   \<and> e_type ev = CIVIL_WAR \<and> e_realm_ids ev = [rid]
                   \<and> length (realms g) \<le> 8 \<and> 12 \<le> length ts"
    then obtain js where
      t: "tiles g' = foldl (\<lambda>tl i. set_realm (Some (realm_key (length (realms g) + 1))) i tl)
                       (tiles g) js" and sub: "set js \<subseteq> set ts"
      by auto
    have "land_owned (foldl (\<lambda>tl i. set_realm (Some (realm_key (length (realms g) + 1))) i tl)
                       (tiles g) js)"
      using assms(2) l sub by (intro land_owned_set_realms) (auto simp: owned_land_def)
    with t show ?thesis by (simp add: owned_land_def)
  qed
qed

lemma random_crisis_owned_land:
  assumes "random_crisis year g = Inr g'" and "owned_land g"
  shows "owned_land g'"
proof -
  have o: "\<And>r. owned_land (g\<lparr>rng := r\<rparr>)" using assms(2) by (simp add: owned_land_def)
  have t: "\<And>r rid. \<forall>i \<in> set (tiles_of_realm g rid). i < length (tiles (g\<lparr>rng := r\<rparr>))
              \<longrightarrow> realm_id (tiles (g\<lparr>rng := r\<rparr>) ! i) \<noteq> None"
    by (simp add: tiles_of_realm_mem)
  from random_crisis_shape [OF assms(1)] show ?thesis
    using assms(2) o lose_territory_owned_land civil_war_owned_land [OF _ o t]
    by (elim disjE exE conjE) auto
qed

lemma history_loop_owned_land:
  assumes "history_loop cy g = Inr g'" and "owned_land g"
  shows "owned_land g'"
  using assms(1,2)
proof (rule history_loop_invariant)
  show "\<And>year a. owned_land a \<Longrightarrow> owned_land (realm_expansion_tick year a)"
    by (rule realm_expansion_tick_owned_land)
  show "\<And>a r. owned_land a \<Longrightarrow> owned_land (a\<lparr>rng := r\<rparr>)"
    by (simp add: owned_land_def)
  show "\<And>year a b. owned_land a \<Longrightarrow> random_crisis year a = Inr b \<Longrightarrow> owned_land b"
    using random_crisis_owned_land by blast
qed

lemma simulate_history_shape:
  assumes "simulate_history g = Inr g'"
  shows "g' = g \<or> (\<exists>h. history_loop 0 (g\<lparr>realms := set_strength (Some 1) (realms g)\<rparr>) = Inr h
                      \<and> g' = h\<lparr>realms := set_strength None (realms h)\<rparr>)"
  using assms by (auto simp: simulate_history_def bind_err_Inr split: if_splits)

lemma simulate_history_owned_land:
  assumes "simulate_history g = Inr g'" and "owned_land g"
  shows "owned_land g'"
proof -
  from simulate_history_shape [OF assms(1)] show ?thesis
  proof
    assume "g' = g" with assms(2) show ?thesis by simp
  next
    assume "\<exists>h. history_loop 0 (g\<lparr>realms := set_strength (Some 1) (realms g)\<rparr>) = Inr h
                      \<and> g' = h\<lparr>realms := set_strength None (realms h)\<rparr>"
    then obtain h where h: "history_loop 0 (g\<lparr>realms := set_strength (Some 1) (realms g)\<rparr>) = Inr h"
      and g': "g' = h\<lparr>realms := set_strength None (realms h)\<rparr>" by blast
    have "owned_land (g\<lparr>realms := set_strength (Some 1) (realms g)\<rparr>)"
      using assms(2) by (simp add: owned_land_def)
    with h have "owned_land h" by (rule history_loop_owned_land)
    with g' show ?thesis by (simp add: owned_land_def)
  qed
qed

subsection \<open>Building the grid\<close>

lemma for_each_indexed:
  assumes "for_each f xs s = Inr s'" and "P 0 s"
    and "\<And>i a b. i < length xs \<Longrightarrow> P i a \<Longrightarrow> f (xs ! i) a = Inr b \<Longrightarrow> P (Suc i) b"
  shows "P (length xs) s'"
  using assms
proof (induction xs arbitrary: s P)
  case Nil
  then show ?case by simp
next
  case (Cons x xs)
  from Cons.prems(1) obtain m where m: "f x s = Inr m" and rest: "for_each f xs m = Inr s'"
    by (auto split: sum.splits)
  have 1: "P (Suc 0) m" using Cons.prems(3) [of 0 s m] Cons.prems(2) m by simp
  have "(\<lambda>i. P (Suc i)) (length xs) s'"
  proof (rule Cons.IH [OF rest, where P = "\<lambda>i. P (Suc i)"])
    show "P (Suc 0) m" by (rule 1)
    fix i a b assume "i < length xs" "P (Suc i) a" "f (xs ! i) a = Inr b"
    then show "P (Suc (Suc i)) b" using Cons.prems(3) [of "Suc i" a b] by simp
  qed
  then show ?case by simp
qed

text \<open>What the grid is: one tile for each position, row after row.\<close>

lemma fresh_new_tile: "fresh_tile (new_tile g x y e m)"
  by (simp add: fresh_tile_def new_tile_def choose_biome_def Let_def)

lemma coords_new_tile: "coords (new_tile g x y e m) = (x, y)"
  by (simp add: coords_def new_tile_def Let_def)

lemma moisture_at_Inr:
  "moisture_at g y r = Inr (m, r') \<Longrightarrow> height g \<noteq> 1"
  by (auto simp: moisture_at_def split: if_splits)

lemma continent_tile_shape:
  assumes "continent_tile y x g = Inr g'"
  shows "\<exists>e m. appended g g' (new_tile g x y e m)"
proof -
  obtain u1 r1 where 1: "rng_random (rng g) = (u1, r1)" by (cases "rng_random (rng g)")
  obtain u2 r2 where 2: "rng_random r1 = (u2, r2)" by (cases "rng_random r1")
  from assms show ?thesis
    unfolding continent_tile_def Let_def 1 2 prod.case appended_def
    by (auto simp: bind_err_Inr)
qed

lemma archipelago_tile_shape:
  assumes "archipelago_tile cs y x g = Inr g'"
  shows "\<exists>e m. appended g g' (new_tile g x y e m)"
proof -
  obtain u1 r1 where 1: "rng_random (rng g) = (u1, r1)" by (cases "rng_random (rng g)")
  from assms show ?thesis
    unfolding archipelago_tile_def Let_def 1 prod.case appended_def
    by (auto simp: bind_err_Inr)
qed

text \<open>The books: everything of the generator but its tiles and its stream.\<close>

lemma same_books_refl: "same_books g g"
  by (simp add: same_books_def same_inputs_def)

lemma same_books_trans: "same_books a b \<Longrightarrow> same_books b c \<Longrightarrow> same_books a c"
  by (simp add: same_books_def same_inputs_def)

lemma row_step:
  assumes "row_built g y i a" and "i < width g" and "appended a b (new_tile a i y e m)"
  shows "row_built g y (Suc i) b"
proof -
  from assms(3) obtain r where b: "b = a\<lparr>tiles := tiles a @ [new_tile a i y e m], rng := r\<rparr>"
    by (auto simp: appended_def)
  have sb: "same_books g a" and gu: "grid_upto a (y * width g + i)"
    and fr: "\<forall>t \<in> set (tiles a). fresh_tile t"
    using assms(1) by (auto simp: row_built_def)
  have w: "width a = width g" using sb by (simp add: same_books_def same_inputs_def)
  have len: "length (tiles a) = y * width g + i" using gu by (simp add: grid_upto_def)
  have 1: "same_books g b" using sb b by (simp add: same_books_def same_inputs_def)
  have 2: "grid_upto b (y * width g + Suc i)"
    unfolding grid_upto_def
  proof (intro conjI allI impI)
    show "length (tiles b) = y * width g + Suc i" using b len by simp
    fix j assume j: "j < y * width g + Suc i"
    show "coords (tiles b ! j) = (j mod width b, j div width b)"
    proof (cases "j < y * width g + i")
      case True
      then have "tiles b ! j = tiles a ! j" using b len by (simp add: nth_append)
      moreover have "width b = width a" using b by simp
      ultimately show ?thesis using gu True w by (simp add: grid_upto_def)
    next
      case False
      with j have je: "j = y * width g + i" by simp
      then have "tiles b ! j = new_tile a i y e m" using b len by (simp add: nth_append)
      moreover have "width b = width g" using b w by simp
      ultimately show ?thesis using je assms(2) by (simp add: coords_new_tile)
    qed
  qed
  have 3: "\<forall>t \<in> set (tiles b). fresh_tile t"
    using fr b by (auto simp: fresh_new_tile)
  from 1 2 3 show ?thesis by (simp add: row_built_def)
qed

lemma row_loop:
  assumes "for_each f [0..<width g] a = Inr b" and "row_built g y 0 a"
    and "\<And>x h h'. f x h = Inr h' \<Longrightarrow> \<exists>e m. appended h h' (new_tile h x y e m)"
  shows "row_built g (Suc y) 0 b"
proof -
  have "row_built g y (length [0..<width g]) b"
  proof (rule for_each_indexed [OF assms(1), where P = "row_built g y"])
    show "row_built g y 0 a" by (rule assms(2))
    fix i h h' assume i: "i < length [0..<width g]" and p: "row_built g y i h"
      and f: "f ([0..<width g] ! i) h = Inr h'"
    from i have ix: "[0..<width g] ! i = i" and iw: "i < width g" by simp_all
    from assms(3) [OF f [unfolded ix]] obtain e m where "appended h h' (new_tile h i y e m)"
      by blast
    with p iw show "row_built g y (Suc i) h'" by (rule row_step)
  qed
  then show ?thesis by (simp add: row_built_def add.commute)
qed

lemma rows_loop:
  assumes "for_each (\<lambda>y. for_each (f y) [0..<width g]) [0..<height g] g = Inr g'"
    and "tiles g = []"
    and "\<And>y x h h'. f y x h = Inr h' \<Longrightarrow> \<exists>e m. appended h h' (new_tile h x y e m)"
  shows "same_books g g' \<and> grid_ok g' \<and> (\<forall>t \<in> set (tiles g'). fresh_tile t)"
proof -
  have "(\<lambda>y. row_built g y 0) (length [0..<height g]) g'"
  proof (rule for_each_indexed [OF assms(1), where P = "\<lambda>y. row_built g y 0"])
    show "row_built g 0 0 g"
      using assms(2) by (simp add: row_built_def same_books_refl grid_upto_def)
    fix i a b assume i: "i < length [0..<height g]" and p: "row_built g i 0 a"
      and f: "for_each (f ([0..<height g] ! i)) [0..<width g] a = Inr b"
    from i have iy: "[0..<height g] ! i = i" by simp
    from f [unfolded iy] p assms(3) show "row_built g (Suc i) 0 b" by (rule row_loop)
  qed
  then have rb: "row_built g (height g) 0 g'" by simp
  then have "width g' = width g" "height g' = height g"
    by (simp_all add: row_built_def same_books_def same_inputs_def)
  with rb show ?thesis
    by (simp add: row_built_def grid_ok_def mult.commute)
qed

subsection \<open>Connectivity of the land\<close>






















lemma land_indices:
  "sorted_wrt (<) (filter (\<lambda>i. \<not> water (tiles g ! i)) [0..<length (tiles g)])"
  "set (filter (\<lambda>i. \<not> water (tiles g ! i)) [0..<length (tiles g)]) = land g"
  by (auto simp: land_def sorted_wrt_filter)


























end
